theory Spec2Isabelle
  imports Complex_Main
begin

section \<open>Values shared by the components\<close>

text \<open>
  An image is a data URL held in a TypeScript \<^verbatim>\<open>string | null\<close>; it is modelled as a
  \<^typ>\<open>string option\<close>. The source tests such values by JavaScript truthiness
  (\<^verbatim>\<open>if (x)\<close>, \<^verbatim>\<open>!x\<close>, \<^verbatim>\<open>x || y\<close>): null and the empty string are falsy.
\<close>

definition truthy :: "string option \<Rightarrow> bool" where
  "truthy v = (case v of None \<Rightarrow> False | Some s \<Rightarrow> s \<noteq> [])"

text \<open>Decimal rendering of a number inside a template literal, as in \<^verbatim>\<open>`state-${Date.now()}`\<close>.\<close>

definition digit_char :: "nat \<Rightarrow> char" where
  "digit_char d = char_of (48 + d)"

function string_of_nat :: "nat \<Rightarrow> string" where
  "string_of_nat n =
     (if n < 10 then [digit_char n]
      else string_of_nat (n div 10) @ [digit_char (n mod 10)])"
  by pat_completeness auto
termination
  by (relation "measure (\<lambda>n. n)") auto

text \<open>
  Reading \<^verbatim>\<open>xs[i]\<close> in JavaScript: \<^verbatim>\<open>undefined\<close> (here \<^const>\<open>None\<close>) outside the array.
\<close>

definition js_index :: "'a list \<Rightarrow> int \<Rightarrow> 'a option" where
  "js_index xs i = (if 0 \<le> i \<and> i < int (length xs) then Some (xs ! nat i) else None)"

section \<open>Data model\<close>

text \<open>\<^verbatim>\<open>interface Product { id; image; isGenerating }\<close> of App.tsx.\<close>

record Product =
  product_id :: string
  image :: "string option"
  isGenerating :: bool

text \<open>
  The object \<^verbatim>\<open>currentState\<close> that App builds on every render and hands to the history
  hook: the five session fields.
\<close>

record currentState =
  generatedImage :: "string option"
  prompt :: string
  roomImage :: "string option"
  products :: "Product list"
  isInitialGeneration :: bool

text \<open>\<^verbatim>\<open>interface HistoryState\<close>: the five session fields plus \<^verbatim>\<open>id\<close> and \<^verbatim>\<open>timestamp\<close>.\<close>

record HistoryState = currentState +
  state_id :: string
  timestamp :: nat

text \<open>The two \<^verbatim>\<open>useState\<close> cells of \<^verbatim>\<open>useHistoryManager\<close>.\<close>

record HistoryManager =
  history :: "HistoryState list"
  currentIndex :: int

definition initialHistory :: HistoryManager where
  "initialHistory = \<lparr>history = [], currentIndex = - 1\<rparr>"

section \<open>The history hook (useHistoryManager)\<close>

text \<open>
  \<^verbatim>\<open>saveToHistory\<close> is a \<^verbatim>\<open>useCallback\<close> closure. It reads \<^verbatim>\<open>currentState\<close>,
  \<^verbatim>\<open>currentIndex\<close> and \<^verbatim>\<open>maxHistorySize\<close> from the render that created it (the
  arguments \<open>cs\<close>, \<open>ci\<close> and \<open>maxHistorySize\<close> below), while the functional update
  \<^verbatim>\<open>setHistory(prev => ...)\<close> receives the live array (the field \<^const>\<open>history\<close> of the
  last argument). \<open>t1\<close> and \<open>t2\<close> are the two readings of \<^verbatim>\<open>Date.now()\<close>.
\<close>

definition newState :: "currentState \<Rightarrow> nat \<Rightarrow> nat \<Rightarrow> HistoryState" where
  "newState cs t1 t2 =
     \<lparr>generatedImage = generatedImage cs,
      prompt = prompt cs,
      roomImage = roomImage cs,
      products = map (\<lambda>p. p) (products cs),
      isInitialGeneration = isInitialGeneration cs,
      state_id = ''state-'' @ string_of_nat t1,
      timestamp = t2\<rparr>"

definition saveToHistory ::
  "nat \<Rightarrow> currentState \<Rightarrow> int \<Rightarrow> nat \<Rightarrow> nat \<Rightarrow> HistoryManager \<Rightarrow> HistoryManager" where
  "saveToHistory maxHistorySize cs ci t1 t2 hm =
     (if \<not> truthy (generatedImage cs) then hm
      else
        let prev = history hm;
            spliced = (if ci \<ge> 0 then take (nat (ci + 1)) prev else prev);
            pushed = spliced @ [newState cs t1 t2];
            newHistory = (if length pushed > maxHistorySize then tl pushed else pushed)
        in \<lparr>history = newHistory, currentIndex = int (length newHistory) - 1\<rparr>)"

text \<open>
  \<^verbatim>\<open>undo\<close> and \<^verbatim>\<open>redo\<close> move the cursor and hand \<^verbatim>\<open>history[newIndex]\<close> to the
  \<^verbatim>\<open>onStateRestore\<close> callback. The second component of the result is what the callback
  is called with: \<^const>\<open>None\<close> when it is not called, \<open>Some None\<close> when it is called with
  \<^verbatim>\<open>undefined\<close>.
\<close>

definition undo :: "HistoryManager \<Rightarrow> HistoryManager \<times> HistoryState option option" where
  "undo hm =
     (if currentIndex hm > 0 then
        let newIndex = currentIndex hm - 1
        in (hm\<lparr>currentIndex := newIndex\<rparr>, Some (js_index (history hm) newIndex))
      else (hm, None))"

definition redo :: "HistoryManager \<Rightarrow> HistoryManager \<times> HistoryState option option" where
  "redo hm =
     (if currentIndex hm < int (length (history hm)) - 1 then
        let newIndex = currentIndex hm + 1
        in (hm\<lparr>currentIndex := newIndex\<rparr>, Some (js_index (history hm) newIndex))
      else (hm, None))"

definition clearHistory :: "HistoryManager \<Rightarrow> HistoryManager" where
  "clearHistory hm = \<lparr>history = [], currentIndex = - 1\<rparr>"

definition canUndo :: "HistoryManager \<Rightarrow> bool" where
  "canUndo hm = (currentIndex hm > 0)"

definition canRedo :: "HistoryManager \<Rightarrow> bool" where
  "canRedo hm = (currentIndex hm < int (length (history hm)) - 1)"

definition hasHistory :: "HistoryManager \<Rightarrow> bool" where
  "hasHistory hm = (length (history hm) > 0)"

definition historyLength :: "HistoryManager \<Rightarrow> nat" where
  "historyLength hm = length (history hm)"

text \<open>
  A commit whose closure captured the cursor that the store has when the commit runs.
  The application does not always commit this way: its timer passes the index that the
  closure of \<^verbatim>\<open>handleGeneration\<close> captured when the request was submitted.
\<close>

definition commit :: "nat \<Rightarrow> HistoryManager \<Rightarrow> currentState \<times> nat \<times> nat \<Rightarrow> HistoryManager" where
  "commit maxHistorySize hm c =
     (case c of (cs, t1, t2) \<Rightarrow> saveToHistory maxHistorySize cs (currentIndex hm) t1 t2 hm)"

definition snapshot_of :: "currentState \<times> nat \<times> nat \<Rightarrow> HistoryState" where
  "snapshot_of c = (case c of (cs, t1, t2) \<Rightarrow> newState cs t1 t2)"

definition committable :: "currentState \<times> nat \<times> nat \<Rightarrow> bool" where
  "committable c = truthy (generatedImage (fst c))"

text \<open>The last \<open>k\<close> elements of a list.\<close>

definition last_n :: "nat \<Rightarrow> 'a list \<Rightarrow> 'a list" where
  "last_n k xs = drop (length xs - k) xs"

text \<open>
  The store states the hook can be in: from the empty store by its four operations, a
  commit with whatever index and session its closure captured.
\<close>

inductive reachable :: "nat \<Rightarrow> HistoryManager \<Rightarrow> bool" for maxHistorySize :: nat where
  init: "reachable maxHistorySize initialHistory"
| save: "reachable maxHistorySize hm \<Longrightarrow>
         reachable maxHistorySize (saveToHistory maxHistorySize cs ci t1 t2 hm)"
| undo: "reachable maxHistorySize hm \<Longrightarrow> reachable maxHistorySize (fst (undo hm))"
| redo: "reachable maxHistorySize hm \<Longrightarrow> reachable maxHistorySize (fst (redo hm))"
| clear: "reachable maxHistorySize hm \<Longrightarrow> reachable maxHistorySize (clearHistory hm)"

section \<open>The generation service (services/geminiService)\<close>

text \<open>
  A value caught by \<^verbatim>\<open>catch (e)\<close>: an \<^verbatim>\<open>Error\<close> with its message, or anything else
  (the \<^verbatim>\<open>e instanceof Error\<close> tests of the source tell them apart).
\<close>

datatype thrown = ErrorObj string | NonError

text \<open>
  What the model service answers to \<^verbatim>\<open>ai.models.generateContent\<close>: the parts of each
  candidate (\<^verbatim>\<open>inlineData?.data\<close> and \<^verbatim>\<open>text\<close> of a part) and the prompt feedback.
  The call itself is outside the repository; its outcome (a thrown value or a response)
  is an argument of the functions below.
\<close>

record Part =
  inlineData :: "string option"
  part_text :: "string option"

record Response =
  candidates :: "Part list list option"
  blockReason :: "string option"
  blockReasonMessage :: "string option"

datatype Modality = IMAGE | TEXT

datatype RequestPart = InlineDataPart "string option" "string option" | TextPart string

record Request =
  model :: string
  parts :: "RequestPart list"
  responseModalities :: "Modality list"

definition editModel :: string where
  "editModel = ''gemini-2.5-flash-image-preview''"

definition imageGenModel :: string where
  "imageGenModel = ''gemini-2.5-flash-image-preview''"

text \<open>\<^verbatim>\<open>String.prototype.split\<close> with a string separator.\<close>

function js_split_from :: "string \<Rightarrow> string \<Rightarrow> string \<Rightarrow> string list" where
  "js_split_from sep acc s =
     (if s = [] then [rev acc]
      else if sep \<noteq> [] \<and> take (length sep) s = sep
        then rev acc # js_split_from sep [] (drop (length sep) s)
      else js_split_from sep (hd s # acc) (tl s))"
  by pat_completeness auto
termination
  by (relation "measure (\<lambda>(sep, acc, s). length s)") auto

definition js_split :: "string \<Rightarrow> string \<Rightarrow> string list" where
  "js_split sep s = js_split_from sep [] s"

text \<open>\<^verbatim>\<open>dataUrlToGeminiPart\<close> of utils/fileUtils: mime type and payload of a data URL.\<close>

definition dataUrlToGeminiPart :: "string \<Rightarrow> RequestPart" where
  "dataUrlToGeminiPart dataUrl =
     (let ps = js_split '';base64,'' dataUrl;
          mimeType = (case ps of [] \<Rightarrow> None | p0 # _ \<Rightarrow> js_index (js_split '':'' p0) 1);
          base64Data = js_index ps 1
      in InlineDataPart mimeType base64Data)"

record GenerateVisualParams =
  gv_prompt :: string
  gv_roomImage :: "string option"
  gv_productImages :: "string option list"
  gv_baseImage :: "string option"

record GenerateVisualResult =
  result_image :: "string option"
  result_text :: "string option"

text \<open>The loop over \<^verbatim>\<open>response.candidates[0].content.parts\<close>: the last image and text found.\<close>

definition scanParts :: "Part list \<Rightarrow> string option \<times> string option" where
  "scanParts ps =
     foldl (\<lambda>(resultImage, resultText) part.
              if truthy (inlineData part) then (inlineData part, resultText)
              else if truthy (part_text part) then (resultImage, part_text part)
              else (resultImage, resultText))
       (None, None) ps"

definition readCandidates :: "Response \<Rightarrow> string option \<times> string option" where
  "readCandidates response =
     (case candidates response of
        None \<Rightarrow> (None, None)
      | Some [] \<Rightarrow> (None, None)
      | Some (c # _) \<Rightarrow> scanParts c)"

definition imagePart :: "string option \<Rightarrow> RequestPart list" where
  "imagePart v = (case v of None \<Rightarrow> [] | Some s \<Rightarrow> if s = [] then [] else [dataUrlToGeminiPart s])"

definition multimodalParts :: "GenerateVisualParams \<Rightarrow> RequestPart list" where
  "multimodalParts p =
     (if truthy (gv_baseImage p) then imagePart (gv_baseImage p)
      else imagePart (gv_roomImage p) @ concat (map imagePart (gv_productImages p)))
     @ [TextPart (gv_prompt p)]"

definition enhancedPrompt :: "string \<Rightarrow> string" where
  "enhancedPrompt p =
     ''Create a professional interior design visualization. '' @ p @ ''. '' @ [CHR 0x0A]
     @ ''    Generate a high-quality, realistic interior design image with proper lighting, composition, and professional photography style.''"

text \<open>The outer \<^verbatim>\<open>catch\<close> of \<^verbatim>\<open>generateVisual\<close> and of \<^verbatim>\<open>generateSourceImage\<close>.\<close>

definition rethrowVisual :: "thrown \<Rightarrow> thrown" where
  "rethrowVisual e =
     (case e of
        ErrorObj m \<Rightarrow> ErrorObj (''Gemini API Error: '' @ m)
      | NonError \<Rightarrow> ErrorObj ''An unknown error occurred while communicating with the Gemini API.'')"

definition rethrowSource :: "thrown \<Rightarrow> thrown" where
  "rethrowSource e =
     (case e of
        ErrorObj m \<Rightarrow> ErrorObj (''Gemini API Error: '' @ m)
      | NonError \<Rightarrow> ErrorObj ''An unknown error occurred while generating the image.'')"

text \<open>
  A \<^verbatim>\<open>string | undefined\<close> and a \<^verbatim>\<open>string | null\<close> inside a template literal, and
  \<^verbatim>\<open>v || d\<close> on a \<^verbatim>\<open>string | null\<close>.
\<close>

definition render_undefined :: "string option \<Rightarrow> string" where
  "render_undefined v = (case v of None \<Rightarrow> ''undefined'' | Some s \<Rightarrow> s)"

definition render_null :: "string option \<Rightarrow> string" where
  "render_null v = (case v of None \<Rightarrow> ''null'' | Some s \<Rightarrow> s)"

definition js_or :: "string option \<Rightarrow> string \<Rightarrow> string" where
  "js_or v d = (case v of None \<Rightarrow> d | Some s \<Rightarrow> if s = [] then d else s)"

text \<open>
  \<^verbatim>\<open>generateVisual\<close>. \<open>r1\<close> is the outcome of the multimodal call and \<open>r2\<close> that of the
  text-only call (read only when the second call is made). The result carries the list
  of requests sent to the service.
\<close>

definition multimodalStage :: "thrown + Response \<Rightarrow> GenerateVisualResult option" where
  "multimodalStage r1 =
     (case r1 of
        Inl multimodalError \<Rightarrow> None
      | Inr response \<Rightarrow>
          (case readCandidates response of
             (resultImage, resultText) \<Rightarrow>
               if truthy resultImage
               then Some \<lparr>result_image = resultImage, result_text = resultText\<rparr>
               else None))"

definition textOnlyStage :: "thrown + Response \<Rightarrow> thrown + GenerateVisualResult" where
  "textOnlyStage r2 =
     (case r2 of
        Inl e \<Rightarrow> Inl (rethrowVisual e)
      | Inr response \<Rightarrow>
          (case readCandidates response of
             (resultImage, resultText) \<Rightarrow>
               if \<not> truthy resultImage \<and> \<not> truthy resultText then
                 (if truthy (blockReason response)
                  then Inl (rethrowVisual (ErrorObj (''Request was blocked: ''
                         @ render_undefined (blockReason response) @ '' - ''
                         @ render_undefined (blockReasonMessage response))))
                  else Inr \<lparr>result_image = resultImage,
                            result_text = Some ''The model did not return any content. Try adjusting your prompt.''\<rparr>)
               else Inr \<lparr>result_image = resultImage, result_text = resultText\<rparr>))"

definition generateVisual ::
  "GenerateVisualParams \<Rightarrow> thrown + Response \<Rightarrow> thrown + Response
     \<Rightarrow> Request list \<times> (thrown + GenerateVisualResult)" where
  "generateVisual p r1 r2 =
     (let multimodalRequest =
            \<lparr>model = editModel, parts = multimodalParts p, responseModalities = [IMAGE, TEXT]\<rparr>;
          textOnlyRequest =
            \<lparr>model = imageGenModel, parts = [TextPart (enhancedPrompt (gv_prompt p))],
             responseModalities = [IMAGE]\<rparr>
      in case multimodalStage r1 of
           Some res \<Rightarrow> ([multimodalRequest], Inr res)
         | None \<Rightarrow> ([multimodalRequest, textOnlyRequest], textOnlyStage r2))"

text \<open>\<^verbatim>\<open>generateSourceImage\<close>: the first image part of the first candidate, as a data URL.\<close>

definition firstImage :: "Part list \<Rightarrow> string option" where
  "firstImage ps = (case filter (\<lambda>part. truthy (inlineData part)) ps of
                      [] \<Rightarrow> None | part # _ \<Rightarrow> inlineData part)"

definition generateSourceImage :: "thrown + Response \<Rightarrow> thrown + string" where
  "generateSourceImage r =
     (case r of
        Inl e \<Rightarrow> Inl (rethrowSource e)
      | Inr response \<Rightarrow>
          (case (case candidates response of
                   None \<Rightarrow> None | Some [] \<Rightarrow> None | Some (c # _) \<Rightarrow> firstImage c) of
             Some d \<Rightarrow> Inr (''data:image/png;base64,'' @ d)
           | None \<Rightarrow> Inl (rethrowSource
                 (ErrorObj ''Image generation failed: The API did not return image data.''))))"

section \<open>The application state (App.tsx)\<close>

text \<open>
  The \<^verbatim>\<open>useState\<close> cells of \<^verbatim>\<open>App\<close>: the five session fields, the error slot, the busy
  flags, the progress display, and the state of the history hook.
\<close>

record App = currentState +
  isLoading :: bool
  error :: "string option"
  isGeneratingRoom :: bool
  loadingProgress :: real
  loadingStatus :: string
  showLoadingProgress :: bool
  historyManager :: HistoryManager

text \<open>\<^verbatim>\<open>const currentState = { generatedImage, prompt, roomImage, products, isInitialGeneration }\<close>.\<close>

definition currentState_of :: "App \<Rightarrow> currentState" where
  "currentState_of a =
     \<lparr>generatedImage = generatedImage a, prompt = prompt a, roomImage = roomImage a,
      products = products a, isInitialGeneration = isInitialGeneration a\<rparr>"

text \<open>
  Modelled from the spec: the constant \<^verbatim>\<open>INITIAL_PRODUCT_IMAGE\<close> of the module
  \<^verbatim>\<open>constants\<close>, which is not among the sources. The spec starts and resets the session
  with one empty item (an item whose image is absent).
\<close>

definition INITIAL_PRODUCT_IMAGE :: "string option" where
  "INITIAL_PRODUCT_IMAGE = None"

text \<open>
  The other constant of that module, \<^verbatim>\<open>INITIAL_ROOM_IMAGE\<close> (the default scene), is an
  argument \<open>room\<close> of the functions that read it. \<open>now\<close> is a reading of \<^verbatim>\<open>Date.now()\<close>.
\<close>

definition defaultMaxHistorySize :: nat where
  "defaultMaxHistorySize = 3"

definition initialApp :: "string option \<Rightarrow> nat \<Rightarrow> App" where
  "initialApp room now =
     \<lparr>generatedImage = None, prompt = [], roomImage = room,
      products = [\<lparr>product_id = ''prod-'' @ string_of_nat now,
                   image = INITIAL_PRODUCT_IMAGE, isGenerating = False\<rparr>],
      isInitialGeneration = True,
      isLoading = False, error = None, isGeneratingRoom = False,
      loadingProgress = 0, loadingStatus = ''Initializing...'', showLoadingProgress = False,
      historyManager = initialHistory\<rparr>"

definition onStateRestore :: "HistoryState \<Rightarrow> App \<Rightarrow> App" where
  "onStateRestore s a =
     a\<lparr>generatedImage := generatedImage s, prompt := prompt s, roomImage := roomImage s,
       products := products s, isInitialGeneration := isInitialGeneration s, error := None\<rparr>"

text \<open>
  The undo and redo buttons: the hook moves its cursor and calls \<^const>\<open>onStateRestore\<close>.
  Called with \<^verbatim>\<open>undefined\<close>, the callback throws a TypeError on its first property read,
  before any setter runs: the result is then \<^const>\<open>Inl\<close> of the state left behind.
\<close>

definition applyRestore :: "HistoryManager \<times> HistoryState option option \<Rightarrow> App \<Rightarrow> App + App" where
  "applyRestore r a =
     (case r of
        (hm, None) \<Rightarrow> Inr a
      | (hm, Some None) \<Rightarrow> Inl (a\<lparr>historyManager := hm\<rparr>)
      | (hm, Some (Some s)) \<Rightarrow> Inr (onStateRestore s (a\<lparr>historyManager := hm\<rparr>)))"

definition undoApp :: "App \<Rightarrow> App + App" where
  "undoApp a = applyRestore (undo (historyManager a)) a"

definition redoApp :: "App \<Rightarrow> App + App" where
  "redoApp a = applyRestore (redo (historyManager a)) a"

definition clearHistoryApp :: "App \<Rightarrow> App" where
  "clearHistoryApp a = a\<lparr>historyManager := clearHistory (historyManager a)\<rparr>"

definition handleAddProduct :: "nat \<Rightarrow> App \<Rightarrow> App" where
  "handleAddProduct now a =
     a\<lparr>products := products a
          @ [\<lparr>product_id = ''prod-'' @ string_of_nat now, image = None, isGenerating = False\<rparr>]\<rparr>"

definition handleRemoveProduct :: "string \<Rightarrow> App \<Rightarrow> App" where
  "handleRemoveProduct pid a = a\<lparr>products := filter (\<lambda>p. product_id p \<noteq> pid) (products a)\<rparr>"

definition handleUpdateProductImage :: "string \<Rightarrow> string \<Rightarrow> App \<Rightarrow> App" where
  "handleUpdateProductImage pid img a =
     a\<lparr>products := map (\<lambda>p. if product_id p = pid then p\<lparr>image := Some img\<rparr> else p) (products a)\<rparr>"

definition handlePromptChange :: "string \<Rightarrow> App \<Rightarrow> App" where
  "handlePromptChange newPrompt a =
     (let a1 = a\<lparr>prompt := newPrompt\<rparr>
      in if truthy (error a) then a1\<lparr>error := None\<rparr> else a1)"

definition errorMessage :: "thrown \<Rightarrow> string" where
  "errorMessage e = (case e of ErrorObj m \<Rightarrow> m | NonError \<Rightarrow> ''An unknown error occurred.'')"

subsection \<open>Item and scene generation\<close>

text \<open>
  An async handler runs in two turns: up to its \<^verbatim>\<open>await\<close> (suffix \<open>_dispatch\<close>) and
  from the settled promise to its end (suffix \<open>_settle\<close>). Other handlers can run in
  between, so the second turn takes the state that is live when it runs. A dispatch
  returns whether a request was sent.
\<close>

definition setProductGenerating :: "string \<Rightarrow> bool \<Rightarrow> App \<Rightarrow> App" where
  "setProductGenerating pid b a =
     a\<lparr>products := map (\<lambda>p. if product_id p = pid then p\<lparr>isGenerating := b\<rparr> else p) (products a)\<rparr>"

definition handleGenerateProduct_dispatch :: "string \<Rightarrow> string \<Rightarrow> nat \<Rightarrow> App \<Rightarrow> App \<times> bool" where
  "handleGenerateProduct_dispatch pid genPrompt index a =
     (if genPrompt = [] then
        (a\<lparr>error := Some (''Please enter a prompt to generate Product ''
                           @ string_of_nat (index + 1) @ ''.'')\<rparr>, False)
      else ((setProductGenerating pid True a)\<lparr>error := None\<rparr>, True))"

definition handleGenerateProduct_settle :: "string \<Rightarrow> nat \<Rightarrow> thrown + string \<Rightarrow> App \<Rightarrow> App" where
  "handleGenerateProduct_settle pid index outcome a =
     setProductGenerating pid False
       (case outcome of
          Inr result \<Rightarrow> handleUpdateProductImage pid result a
        | Inl e \<Rightarrow> a\<lparr>error := Some (''Error generating product '' @ string_of_nat (index + 1)
                                   @ '': '' @ errorMessage e)\<rparr>)"

definition handleGenerateProduct :: "string \<Rightarrow> string \<Rightarrow> nat \<Rightarrow> thrown + Response \<Rightarrow> App \<Rightarrow> App" where
  "handleGenerateProduct pid genPrompt index r a =
     (case handleGenerateProduct_dispatch pid genPrompt index a of
        (a1, False) \<Rightarrow> a1
      | (a1, True) \<Rightarrow> handleGenerateProduct_settle pid index (generateSourceImage r) a1)"

definition handleGenerateRoom_dispatch :: "string \<Rightarrow> App \<Rightarrow> App \<times> bool" where
  "handleGenerateRoom_dispatch genPrompt a =
     (if genPrompt = [] then
        (a\<lparr>error := Some ''Please enter a prompt to generate the room image.''\<rparr>, False)
      else (a\<lparr>isGeneratingRoom := True, error := None\<rparr>, True))"

definition handleGenerateRoom_settle :: "thrown + string \<Rightarrow> App \<Rightarrow> App" where
  "handleGenerateRoom_settle outcome a =
     (case outcome of
        Inr result \<Rightarrow> a\<lparr>roomImage := Some result\<rparr>
      | Inl e \<Rightarrow> a\<lparr>error := Some (''Error generating room: '' @ errorMessage e)\<rparr>)
     \<lparr>isGeneratingRoom := False\<rparr>"

definition handleGenerateRoom :: "string \<Rightarrow> thrown + Response \<Rightarrow> App \<Rightarrow> App" where
  "handleGenerateRoom genPrompt r a =
     (case handleGenerateRoom_dispatch genPrompt a of
        (a1, False) \<Rightarrow> a1
      | (a1, True) \<Rightarrow> handleGenerateRoom_settle (generateSourceImage r) a1)"

subsection \<open>The progress display (simulateProgress)\<close>

definition statusMessages :: "string list" where
  "statusMessages =
     [''Analyzing your images...'', ''Understanding your prompt...'',
      ''Generating design concepts...'', ''Rendering your vision...'',
      ''Adding final touches...'', ''Almost ready...'']"

definition simulateProgress_start :: "App \<Rightarrow> App" where
  "simulateProgress_start a =
     a\<lparr>showLoadingProgress := True, loadingProgress := 0, loadingStatus := ''Initializing...''\<rparr>"

text \<open>
  One firing of \<^verbatim>\<open>progressInterval\<close>; \<open>r\<close> is the value of \<^verbatim>\<open>Math.random()\<close>, a number
  in the interval from 0 (included) to 1 (excluded). Numbers are exact reals here.
\<close>

definition progressTick :: "real \<Rightarrow> App \<Rightarrow> App" where
  "progressTick r a =
     a\<lparr>loadingProgress :=
         (if loadingProgress a \<ge> 90 then loadingProgress a else loadingProgress a + r * 15)\<rparr>"

text \<open>One firing of \<^verbatim>\<open>statusInterval\<close> with the local counter \<^verbatim>\<open>statusIndex\<close> at \<open>i\<close>.\<close>

definition statusTick :: "nat \<Rightarrow> App \<Rightarrow> App" where
  "statusTick i a =
     a\<lparr>loadingStatus :=
         (case js_index statusMessages (int i) of
            None \<Rightarrow> ''Finalizing...''
          | Some m \<Rightarrow> if m = [] then ''Finalizing...'' else m)\<rparr>"

definition simulateProgress_finally :: "App \<Rightarrow> App" where
  "simulateProgress_finally a = a\<lparr>loadingProgress := 100, loadingStatus := ''Complete!''\<rparr>"

definition hideProgress :: "App \<Rightarrow> App" where
  "hideProgress a = a\<lparr>showLoadingProgress := False\<rparr>"

text \<open>
  The timers of one \<^verbatim>\<open>simulateProgress\<close> call. A timer that is set holds its period
  or delay in milliseconds; a cleared interval never fires again. \<open>statusIndex\<close> is the
  local counter of the status interval.
\<close>

record Timers =
  progressInterval :: "nat option"
  statusInterval :: "nat option"
  statusIndex :: nat
  hideTimeout :: "nat option"

datatype ProgressEvent = ProgressFires real | StatusFires | RequestSettles | HideFires

definition simulateProgress_begin :: "App \<Rightarrow> App \<times> Timers" where
  "simulateProgress_begin a =
     (simulateProgress_start a,
      \<lparr>progressInterval = Some 200, statusInterval = Some 1000, statusIndex = 0,
       hideTimeout = None\<rparr>)"

fun progressStep :: "ProgressEvent \<Rightarrow> App \<times> Timers \<Rightarrow> App \<times> Timers" where
  "progressStep (ProgressFires r) (a, t) =
     (if progressInterval t \<noteq> None then (progressTick r a, t) else (a, t))"
| "progressStep StatusFires (a, t) =
     (if statusInterval t \<noteq> None
      then (statusTick (statusIndex t) a, t\<lparr>statusIndex := statusIndex t + 1\<rparr>)
      else (a, t))"
| "progressStep RequestSettles (a, t) =
     (simulateProgress_finally a,
      t\<lparr>progressInterval := None, statusInterval := None, hideTimeout := Some 500\<rparr>)"
| "progressStep HideFires (a, t) =
     (if hideTimeout t \<noteq> None then (hideProgress a, t\<lparr>hideTimeout := None\<rparr>) else (a, t))"

definition progressRun :: "ProgressEvent list \<Rightarrow> App \<times> Timers \<Rightarrow> App \<times> Timers" where
  "progressRun es s = foldl (\<lambda>s e. progressStep e s) s es"

text \<open>
  The events that can happen while the request is outstanding: the two intervals fire,
  and \<^verbatim>\<open>Math.random()\<close> is at least 0 and less than 1.
\<close>

fun whileOutstanding :: "ProgressEvent \<Rightarrow> bool" where
  "whileOutstanding (ProgressFires r) = (0 \<le> r \<and> r < 1)"
| "whileOutstanding StatusFires = True"
| "whileOutstanding RequestSettles = False"
| "whileOutstanding HideFires = False"

subsection \<open>Composite generation (handleGeneration)\<close>

text \<open>
  \<^verbatim>\<open>handleGeneration\<close> is a \<^verbatim>\<open>useCallback\<close> whose dependencies are the five session
  fields. The function that runs is the one created by the last render in which one of
  them changed; it reads the session fields of that render and calls that render's
  \<^verbatim>\<open>saveToHistory\<close>, which in turn closed over that render's \<^verbatim>\<open>currentState\<close> object and
  \<^verbatim>\<open>currentIndex\<close>. These captured values are the record below. The setters act on the
  live state.
\<close>

record Closure =
  captured :: currentState
  capturedIndex :: int

definition validProducts :: "Product list \<Rightarrow> Product list" where
  "validProducts ps = filter (\<lambda>p. truthy (image p)) ps"

definition missingInputsMessage :: string where
  "missingInputsMessage = ''Please provide a room image and at least one product image.''"

definition missingBaseMessage :: string where
  "missingBaseMessage = ''An initial image must be generated before you can refine it.''"

definition missingPromptMessage :: string where
  "missingPromptMessage = ''Please enter a prompt to generate the design.''"

text \<open>The three guards at the head of the handler: the message of the first that rejects.\<close>

definition validationError :: "currentState \<Rightarrow> string option" where
  "validationError cs =
     (if isInitialGeneration cs
         \<and> (\<not> truthy (roomImage cs) \<or> length (validProducts (products cs)) = 0)
      then Some missingInputsMessage
      else if \<not> isInitialGeneration cs \<and> \<not> truthy (generatedImage cs)
      then Some missingBaseMessage
      else if prompt cs = [] then Some missingPromptMessage
      else None)"

definition visualParams :: "currentState \<Rightarrow> GenerateVisualParams" where
  "visualParams cs =
     \<lparr>gv_prompt = prompt cs,
      gv_roomImage = (if isInitialGeneration cs then roomImage cs else None),
      gv_productImages = (if isInitialGeneration cs
                          then map image (validProducts (products cs)) else []),
      gv_baseImage = (if isInitialGeneration cs then None else generatedImage cs)\<rparr>"

text \<open>First turn: the guards, then the busy flag, the error slot and the progress display.\<close>

definition handleGeneration_dispatch :: "Closure \<Rightarrow> App \<Rightarrow> App \<times> bool" where
  "handleGeneration_dispatch cl a =
     (case validationError (captured cl) of
        Some msg \<Rightarrow> (a\<lparr>error := Some msg\<rparr>, False)
      | None \<Rightarrow> (simulateProgress_start (a\<lparr>isLoading := True, error := None\<rparr>), True))"

text \<open>
  Second turn: the outcome of \<^verbatim>\<open>generateVisual\<close>, the \<^verbatim>\<open>finally\<close> of the callback and
  the \<^verbatim>\<open>finally\<close> of \<^verbatim>\<open>simulateProgress\<close>. The flag returned says whether the timer that
  calls \<^verbatim>\<open>saveToHistory\<close> was set.
\<close>

definition handleGeneration_settle :: "thrown + GenerateVisualResult \<Rightarrow> App \<Rightarrow> App \<times> bool" where
  "handleGeneration_settle outcome a =
     (let (a1, saved) =
            (case outcome of
               Inr result \<Rightarrow>
                 if truthy (result_image result) then
                   (a\<lparr>generatedImage :=
                        Some (''data:image/png;base64,'' @ render_null (result_image result)),
                      isInitialGeneration := False, prompt := []\<rparr>, True)
                 else
                   (a\<lparr>error := Some (js_or (result_text result)
                        ''Failed to generate image. The model may not have returned an image.'')\<rparr>,
                    False)
             | Inl e \<Rightarrow> (a\<lparr>error := Some (''Error: '' @ errorMessage e)\<rparr>, False))
      in (simulateProgress_finally (a1\<lparr>isLoading := False\<rparr>), saved))"

text \<open>Third turn, 100 ms later: the captured \<^verbatim>\<open>saveToHistory\<close> runs on the live history.\<close>

definition saveTimer :: "Closure \<Rightarrow> nat \<Rightarrow> nat \<Rightarrow> App \<Rightarrow> App" where
  "saveTimer cl t1 t2 a =
     a\<lparr>historyManager :=
         saveToHistory defaultMaxHistorySize (captured cl) (capturedIndex cl) t1 t2
           (historyManager a)\<rparr>"

text \<open>
  The whole operation with no other handler in between: the final state and the
  requests sent to the service.
\<close>

definition handleGeneration ::
  "Closure \<Rightarrow> thrown + Response \<Rightarrow> thrown + Response \<Rightarrow> nat \<Rightarrow> nat \<Rightarrow> App
     \<Rightarrow> App \<times> Request list" where
  "handleGeneration cl r1 r2 t1 t2 a =
     (case handleGeneration_dispatch cl a of
        (a1, False) \<Rightarrow> (a1, [])
      | (a1, True) \<Rightarrow>
          (case generateVisual (visualParams (captured cl)) r1 r2 of
             (requests, outcome) \<Rightarrow>
               (case handleGeneration_settle outcome a1 of
                  (a2, saved) \<Rightarrow>
                    (hideProgress (if saved then saveTimer cl t1 t2 a2 else a2), requests))))"

text \<open>The closure that the render of state \<open>a\<close> creates.\<close>

definition closure_of :: "App \<Rightarrow> Closure" where
  "closure_of a =
     \<lparr>captured = currentState_of a, capturedIndex = currentIndex (historyManager a)\<rparr>"

subsection \<open>Start over (resetExperience)\<close>

text \<open>
  The synchronous part, and the timer \<^verbatim>\<open>setTimeout(() => setPrompt(''), 0)\<close> that runs
  in a later turn.
\<close>

definition resetExperience :: "string option \<Rightarrow> nat \<Rightarrow> App \<Rightarrow> App" where
  "resetExperience room now a =
     (clearHistoryApp a)
       \<lparr>roomImage := room,
        products := [\<lparr>product_id = ''prod-'' @ string_of_nat now,
                      image = INITIAL_PRODUCT_IMAGE, isGenerating = False\<rparr>],
        generatedImage := None,
        isInitialGeneration := True,
        error := None,
        isLoading := False\<rparr>"

definition resetPromptTimer :: "App \<Rightarrow> App" where
  "resetPromptTimer a = a\<lparr>prompt := []\<rparr>"

section \<open>The application as a transition system\<close>

text \<open>
  Execution is single-threaded: a handler runs to its next \<^verbatim>\<open>await\<close> or to its end
  before anything else runs. A world is the state of \<^verbatim>\<open>App\<close> together with what is
  outstanding: the requests awaiting the service (an item request with its \<^verbatim>\<open>id\<close> and
  \<^verbatim>\<open>index\<close>, a composite request with the closure of its handler) and the timers that
  are set. \<open>handler\<close> is what the \<^verbatim>\<open>handleGeneration\<close> of the latest render closes
  over. The interval ticks of the progress display touch only \<^const>\<open>loadingProgress\<close> and
  \<^const>\<open>loadingStatus\<close>; they are the subject of \<^const>\<open>progressStep\<close> and are left out here.
\<close>

record World =
  app :: App
  handler :: Closure
  productRequests :: "(string \<times> nat) list"
  roomRequests :: nat
  compositeRequests :: "Closure list"
  saveTimers :: "Closure list"
  hideTimers :: nat
  promptTimers :: nat

definition initialWorld :: "string option \<Rightarrow> nat \<Rightarrow> World" where
  "initialWorld room now =
     \<lparr>app = initialApp room now, handler = closure_of (initialApp room now),
      productRequests = [], roomRequests = 0, compositeRequests = [], saveTimers = [],
      hideTimers = 0, promptTimers = 0\<rparr>"

text \<open>
  What the user and the environment can do. The settling of a request carries the
  answer of the service; a timer that fires carries the readings of \<^verbatim>\<open>Date.now()\<close>.
\<close>

datatype Event =
    AddProduct nat
  | RemoveProduct string
  | UploadProduct string string
  | UploadRoom string
  | GenerateProduct string string nat
  | ProductSettles nat "thrown + Response"
  | GenerateRoom string
  | RoomSettles "thrown + Response"
  | TypePrompt string
  | Submit
  | CompositeSettles nat "thrown + Response" "thrown + Response"
  | SaveTimerFires nat nat nat
  | HideTimerFires
  | Undo
  | Redo
  | ClearHistory
  | StartOver nat
  | PromptTimerFires

text \<open>\<^verbatim>\<open>!s.trim()\<close>, for the ASCII white space characters.\<close>

definition js_blank :: "string \<Rightarrow> bool" where
  "js_blank s = list_all (\<lambda>c. c \<in> set [CHR '' '', CHR 0x09, CHR 0x0A, CHR 0x0B, CHR 0x0C, CHR 0x0D]) s"

definition remove_nth :: "nat \<Rightarrow> 'a list \<Rightarrow> 'a list" where
  "remove_nth k xs = take k xs @ drop (Suc k) xs"

definition strip :: "App + App \<Rightarrow> App" where
  "strip r = (case r of Inl a \<Rightarrow> a | Inr a \<Rightarrow> a)"

text \<open>
  One event. A control that the components render disabled or not at all does
  nothing: the uploaders, \<^verbatim>\<open>Add Product\<close> and the remove button outside the first
  composite (\<^verbatim>\<open>disabled={!isInitialGeneration}\<close>), the generate button of an uploader
  while its image is generating, the prompt box while \<^const>\<open>isLoading\<close> or with a blank
  prompt, the history buttons by \<^const>\<open>canUndo\<close>, \<^const>\<open>canRedo\<close> and \<^const>\<open>hasHistory\<close>,
  and \<^verbatim>\<open>start over\<close> before the first composite. \<open>room\<close> is \<^verbatim>\<open>INITIAL_ROOM_IMAGE\<close>.
\<close>

fun handle :: "string option \<Rightarrow> Event \<Rightarrow> World \<Rightarrow> World" where
  "handle room (AddProduct now) w =
     (if isInitialGeneration (app w) then w\<lparr>app := handleAddProduct now (app w)\<rparr> else w)"
| "handle room (RemoveProduct pid) w =
     (if isInitialGeneration (app w) \<and> length (products (app w)) > 1
         \<and> (\<exists>p \<in> set (products (app w)). product_id p = pid \<and> truthy (image p))
      then w\<lparr>app := handleRemoveProduct pid (app w)\<rparr> else w)"
| "handle room (UploadProduct pid img) w =
     (if isInitialGeneration (app w) then w\<lparr>app := handleUpdateProductImage pid img (app w)\<rparr>
      else w)"
| "handle room (UploadRoom img) w =
     (if isInitialGeneration (app w) then w\<lparr>app := (app w)\<lparr>roomImage := Some img\<rparr>\<rparr> else w)"
| "handle room (GenerateProduct pid genPrompt index) w =
     (if isInitialGeneration (app w) \<and> \<not> js_blank genPrompt
         \<and> (case js_index (products (app w)) (int index) of
               None \<Rightarrow> False | Some p \<Rightarrow> product_id p = pid \<and> \<not> isGenerating p)
      then (case handleGenerateProduct_dispatch pid genPrompt index (app w) of
              (a, sent) \<Rightarrow>
                w\<lparr>app := a,
                  productRequests :=
                    productRequests w @ (if sent then [(pid, index)] else [])\<rparr>)
      else w)"
| "handle room (ProductSettles k r) w =
     (case js_index (productRequests w) (int k) of
        None \<Rightarrow> w
      | Some (pid, index) \<Rightarrow>
          w\<lparr>app := handleGenerateProduct_settle pid index (generateSourceImage r) (app w),
            productRequests := remove_nth k (productRequests w)\<rparr>)"
| "handle room (GenerateRoom genPrompt) w =
     (if isInitialGeneration (app w) \<and> \<not> js_blank genPrompt \<and> \<not> isGeneratingRoom (app w)
      then (case handleGenerateRoom_dispatch genPrompt (app w) of
              (a, sent) \<Rightarrow>
                w\<lparr>app := a, roomRequests := roomRequests w + (if sent then 1 else 0)\<rparr>)
      else w)"
| "handle room (RoomSettles r) w =
     (if roomRequests w > 0
      then w\<lparr>app := handleGenerateRoom_settle (generateSourceImage r) (app w),
             roomRequests := roomRequests w - 1\<rparr>
      else w)"
| "handle room (TypePrompt s) w =
     (if \<not> isLoading (app w) then w\<lparr>app := handlePromptChange s (app w)\<rparr> else w)"
| "handle room Submit w =
     (if \<not> isLoading (app w) \<and> \<not> js_blank (prompt (app w))
      then (case handleGeneration_dispatch (handler w) (app w) of
              (a, sent) \<Rightarrow>
                w\<lparr>app := a,
                  compositeRequests :=
                    compositeRequests w @ (if sent then [handler w] else [])\<rparr>)
      else w)"
| "handle room (CompositeSettles k r1 r2) w =
     (case js_index (compositeRequests w) (int k) of
        None \<Rightarrow> w
      | Some cl \<Rightarrow>
          (case handleGeneration_settle
                  (snd (generateVisual (visualParams (captured cl)) r1 r2)) (app w) of
             (a, saved) \<Rightarrow>
               w\<lparr>app := a,
                 compositeRequests := remove_nth k (compositeRequests w),
                 saveTimers := saveTimers w @ (if saved then [cl] else []),
                 hideTimers := hideTimers w + 1\<rparr>))"
| "handle room (SaveTimerFires k t1 t2) w =
     (case js_index (saveTimers w) (int k) of
        None \<Rightarrow> w
      | Some cl \<Rightarrow>
          w\<lparr>app := saveTimer cl t1 t2 (app w), saveTimers := remove_nth k (saveTimers w)\<rparr>)"
| "handle room HideTimerFires w =
     (if hideTimers w > 0
      then w\<lparr>app := hideProgress (app w), hideTimers := hideTimers w - 1\<rparr> else w)"
| "handle room Undo w =
     (if canUndo (historyManager (app w)) then w\<lparr>app := strip (undoApp (app w))\<rparr> else w)"
| "handle room Redo w =
     (if canRedo (historyManager (app w)) then w\<lparr>app := strip (redoApp (app w))\<rparr> else w)"
| "handle room ClearHistory w =
     (if hasHistory (historyManager (app w)) then w\<lparr>app := clearHistoryApp (app w)\<rparr> else w)"
| "handle room (StartOver now) w =
     (if \<not> isInitialGeneration (app w)
      then w\<lparr>app := resetExperience room now (app w), promptTimers := promptTimers w + 1\<rparr>
      else w)"
| "handle room PromptTimerFires w =
     (if promptTimers w > 0
      then w\<lparr>app := resetPromptTimer (app w), promptTimers := promptTimers w - 1\<rparr> else w)"

text \<open>
  The render after an event: \<^verbatim>\<open>useCallback\<close> keeps the previous \<^verbatim>\<open>handleGeneration\<close>
  unless one of its five dependencies changed. React compares strings and booleans by
  value and the \<^verbatim>\<open>products\<close> array by identity; here all five are compared by value,
  so a product list rebuilt with the same contents keeps the previous handler. The
  session a handler captured is the same either way; only the index it captured can
  differ, and only when no other dependency changed since that index moved.
\<close>

definition rerender :: "World \<Rightarrow> World" where
  "rerender w =
     (if currentState_of (app w) = captured (handler w) then w
      else w\<lparr>handler := closure_of (app w)\<rparr>)"

definition step :: "string option \<Rightarrow> World \<Rightarrow> Event \<Rightarrow> World" where
  "step room w e = rerender (handle room e w)"

definition run :: "string option \<Rightarrow> nat \<Rightarrow> Event list \<Rightarrow> World" where
  "run room now es = foldl (step room) (initialWorld room now) es"

text \<open>No request is awaiting the service.\<close>

definition idle :: "World \<Rightarrow> bool" where
  "idle w = (productRequests w = [] \<and> roomRequests w = 0 \<and> compositeRequests w = [])"

text \<open>The ids of the items of a list that are marked as generating.\<close>

definition generatingIds :: "Product list \<Rightarrow> string set" where
  "generatingIds ps = product_id ` {p \<in> set ps. isGenerating p}"

section \<open>Sample inputs\<close>

text \<open>Concrete states and service answers at which the theorems below are instantiated.\<close>

definition sample_room :: "string option" where
  "sample_room = Some ''data:image/png;base64,ROOM''"

definition image_response :: "string \<Rightarrow> Response" where
  "image_response img =
     \<lparr>candidates = Some [[\<lparr>inlineData = Some img, part_text = None\<rparr>]],
      blockReason = None, blockReasonMessage = None\<rparr>"

definition text_response :: "string \<Rightarrow> Response" where
  "text_response txt =
     \<lparr>candidates = Some [[\<lparr>inlineData = None, part_text = Some txt\<rparr>]],
      blockReason = None, blockReasonMessage = None\<rparr>"

text \<open>
  A session ready for its first composite: the default scene, the one item given an
  uploaded image, and a prompt typed in.
\<close>

definition sample_first :: App where
  "sample_first =
     handlePromptChange ''put the sofa by the window''
       (handleUpdateProductImage (''prod-'' @ string_of_nat 1) ''data:image/png;base64,SOFA''
          (initialApp sample_room 1))"

text \<open>A session in refinement: a composite on display and a new prompt typed in.\<close>

definition sample_refine :: App where
  "sample_refine =
     handlePromptChange ''make it brighter''
       (fst (handleGeneration (closure_of sample_first) (Inr (image_response ''IMG1''))
               (Inr (image_response ''unused'')) 10 10 sample_first))"

text \<open>Three sessions that the guards of the first composite reject.\<close>

definition sample_no_scene :: App where
  "sample_no_scene = sample_first\<lparr>roomImage := None\<rparr>"

definition sample_no_item :: App where
  "sample_no_item = handlePromptChange ''put the sofa by the window'' (initialApp sample_room 1)"

definition sample_no_prompt :: App where
  "sample_no_prompt = handlePromptChange [] sample_first"

text \<open>
  A session with two snapshots and the cursor on the second; the first was taken while
  the item was being generated.
\<close>

definition sample_busy_snapshot :: currentState where
  "sample_busy_snapshot =
     currentState_of (setProductGenerating (''prod-'' @ string_of_nat 1) True sample_refine)"

definition sample_two_snapshots :: App where
  "sample_two_snapshots =
     sample_refine\<lparr>historyManager :=
       foldl (commit defaultMaxHistorySize) initialHistory
         [(sample_busy_snapshot, 20, 20), (currentState_of sample_refine, 30, 30)]\<rparr>"

text \<open>
  A run of the application from its start with no default scene: the user uploads a
  scene and an image for the first item, adds a second item and asks for its image to be
  generated; that request stays outstanding through a first composite and the dispatch of
  a refinement, then settles; after one more refinement the user presses undo.
\<close>

definition busy_trace :: "Event list" where
  "busy_trace =
     [UploadRoom ''data:image/png;base64,ROOM'',
      UploadProduct ''prod-1'' ''data:image/png;base64,SOFA'',
      AddProduct 2,
      GenerateProduct ''prod-2'' ''a floor lamp'' 1,
      TypePrompt ''put the sofa by the window'',
      Submit,
      CompositeSettles 0 (Inr (image_response ''IMG1'')) (Inl NonError),
      SaveTimerFires 0 10 10,
      HideTimerFires,
      TypePrompt ''make it brighter'',
      Submit,
      CompositeSettles 0 (Inr (image_response ''IMG2'')) (Inl NonError),
      SaveTimerFires 0 20 20,
      HideTimerFires,
      ProductSettles 0 (Inr (image_response ''LAMP'')),
      TypePrompt ''add a rug'',
      Submit,
      CompositeSettles 0 (Inr (image_response ''IMG3'')) (Inl NonError),
      SaveTimerFires 0 30 30,
      HideTimerFires,
      Undo]"

text \<open>
  Two shorter runs. In the first the user uploads a scene and an item image, types a
  prompt, submits, and the service answers with an image; then a refinement follows. In
  the second a scene request is still outstanding when the first composite is done and
  the user starts over.
\<close>

definition first_composite_trace :: "Event list" where
  "first_composite_trace =
     [UploadRoom ''data:image/png;base64,ROOM'',
      UploadProduct ''prod-1'' ''data:image/png;base64,SOFA'',
      TypePrompt ''put the sofa by the window'',
      Submit,
      CompositeSettles 0 (Inr (image_response ''IMG1'')) (Inl NonError),
      SaveTimerFires 0 10 10,
      HideTimerFires]"

definition refinement_trace :: "Event list" where
  "refinement_trace =
     first_composite_trace @
     [TypePrompt ''make it brighter'',
      Submit,
      CompositeSettles 0 (Inr (image_response ''IMG2'')) (Inl NonError),
      SaveTimerFires 0 20 20,
      HideTimerFires]"

definition reset_trace :: "Event list" where
  "reset_trace =
     [UploadRoom ''data:image/png;base64,ROOM'',
      UploadProduct ''prod-1'' ''data:image/png;base64,SOFA'',
      GenerateRoom ''a sunny loft'',
      TypePrompt ''put the sofa by the window'',
      Submit,
      CompositeSettles 0 (Inr (image_response ''IMG1'')) (Inl NonError),
      SaveTimerFires 0 10 10,
      HideTimerFires,
      StartOver 40]"

text \<open>Sample sessions used to instantiate the theorems at concrete inputs.\<close>

definition sample_session :: "string \<Rightarrow> string \<Rightarrow> currentState" where
  "sample_session g p =
     \<lparr>generatedImage = Some g, prompt = p, roomImage = Some ''data:room'',
      products = [], isInitialGeneration = False\<rparr>"

definition sample_commits :: "(currentState \<times> nat \<times> nat) list" where
  "sample_commits =
     [(sample_session ''A'' ''a'', 1, 1), (sample_session ''B'' ''b'', 2, 2),
      (sample_session ''C'' ''c'', 3, 3), (sample_session ''D'' ''d'', 4, 4),
      (sample_session ''E'' ''e'', 5, 5)]"

text \<open>
  One refinement that runs undisturbed: the prompt is typed and submitted, the service
  answers the multimodal request with an image, and the two timers fire. The submit
  follows a change of the prompt, so the handler that runs is the one of the latest
  render.
\<close>

definition refinement :: "string \<Rightarrow> string \<Rightarrow> nat \<Rightarrow> Event list" where
  "refinement p img t =
     [TypePrompt p,
      Submit,
      CompositeSettles 0 (Inr (image_response img)) (Inl NonError),
      SaveTimerFires 0 t t,
      HideTimerFires]"

text \<open>
  A run with no undo and no redo in which the fourth request is typed and submitted after
  the third has settled and before the 100 ms timer of the third has fired. The commits
  happen at the clock readings 20, 30, 40 and 50. The prefix ends with the commit of the
  third request.
\<close>

definition race_prefix :: "Event list" where
  "race_prefix =
     first_composite_trace
     @ refinement ''make it brighter'' ''IMG2'' 20
     @ [TypePrompt ''add a rug'',
        Submit,
        CompositeSettles 0 (Inr (image_response ''IMG3'')) (Inl NonError),
        TypePrompt ''add a plant'',
        Submit,
        SaveTimerFires 0 30 30]"

definition race_trace :: "Event list" where
  "race_trace =
     race_prefix
     @ [HideTimerFires,
        CompositeSettles 0 (Inr (image_response ''IMG4'')) (Inl NonError),
        SaveTimerFires 0 40 40,
        HideTimerFires]
     @ refinement ''warmer light'' ''IMG5'' 50"

text \<open>
  A run that fills the history with three snapshots, then submits one more refinement
  and presses undo while that request is outstanding: up to the settling of the request,
  and with the commit that follows.
\<close>

definition undo_in_flight_prefix :: "Event list" where
  "undo_in_flight_prefix =
     first_composite_trace
     @ refinement ''make it brighter'' ''IMG2'' 20
     @ refinement ''add a rug'' ''IMG3'' 30
     @ refinement ''add a plant'' ''IMG4'' 40
     @ [TypePrompt ''warmer light'',
        Submit,
        Undo,
        CompositeSettles 0 (Inr (image_response ''IMG5'')) (Inl NonError)]"

definition undo_in_flight_trace :: "Event list" where
  "undo_in_flight_trace = undo_in_flight_prefix @ [SaveTimerFires 0 50 50, HideTimerFires]"

text \<open>
  A run that ends with one request of each kind outstanding (the image of the second
  item, the scene, the first composite), and its continuation in which the three
  requests settle: the item's with something that is not an \<^verbatim>\<open>Error\<close>, the scene's with
  a response that holds no image, the composite's with an error at both stages.
\<close>

definition all_busy_trace :: "Event list" where
  "all_busy_trace =
     [UploadRoom ''data:image/png;base64,ROOM'',
      UploadProduct ''prod-1'' ''data:image/png;base64,SOFA'',
      AddProduct 2,
      GenerateProduct ''prod-2'' ''a floor lamp'' 1,
      GenerateRoom ''a loft'',
      TypePrompt ''put the sofa by the window'',
      Submit]"

definition all_settled_trace :: "Event list" where
  "all_settled_trace =
     all_busy_trace
     @ [ProductSettles 0 (Inl NonError),
        RoomSettles (Inr (text_response ''no'')),
        CompositeSettles 0 (Inl (ErrorObj ''503'')) (Inl (ErrorObj ''503''))]"

text \<open>
  The hook driven directly: four commits into a store of capacity 3, the third from a
  closure that still holds the cursor of the render before the second (index 0).
\<close>

definition stale_commits :: HistoryManager where
  "stale_commits =
     saveToHistory 3 (sample_session ''D'' ''d'') 1 4 4
       (saveToHistory 3 (sample_session ''C'' ''c'') 0 3 3
          (saveToHistory 3 (sample_session ''B'' ''b'') 0 2 2
             (saveToHistory 3 (sample_session ''A'' ''a'') (- 1) 1 1 initialHistory)))"

text \<open>The store of three entries A, B, C with the cursor at B.\<close>

definition abc_store :: HistoryManager where
  "abc_store =
     \<lparr>history = [newState (sample_session ''A'' ''a'') 1 1,
                 newState (sample_session ''B'' ''b'') 2 2,
                 newState (sample_session ''C'' ''c'') 3 3],
      currentIndex = 1\<rparr>"

section \<open>Properties of the history hook\<close>

lemma length_last_n: "length (last_n k xs) = min k (length xs)"
  by (simp add: last_n_def)

lemma last_n_snoc:
  "last_n k (xs @ [x]) =
     (if length (last_n k xs) + 1 > k then tl (last_n k xs @ [x]) else last_n k xs @ [x])"
proof (cases "k = 0")
  case True
  then show ?thesis by (simp add: last_n_def)
next
  case False
  show ?thesis
  proof (cases "k \<le> length xs")
    case True
    with False have ne: "drop (length xs - k) xs \<noteq> []" by simp
    from True False have "length xs + 1 - k = Suc (length xs - k)" by simp
    with True False have "last_n k (xs @ [x]) = drop (Suc (length xs - k)) xs @ [x]"
      by (simp add: last_n_def)
    moreover from ne have "tl (last_n k xs @ [x]) = drop (Suc (length xs - k)) xs @ [x]"
      by (simp add: last_n_def drop_Suc tl_drop)
    ultimately show ?thesis using True by (simp add: length_last_n)
  next
    case False
    then show ?thesis by (simp add: last_n_def)
  qed
qed

lemma saveToHistory_length:
  "length (history hm) \<le> K \<Longrightarrow> length (history (saveToHistory K cs ci t1 t2 hm)) \<le> K"
  by (auto simp: saveToHistory_def Let_def)

lemma reachable_length: "reachable K hm \<Longrightarrow> length (history hm) \<le> K"
proof (induction rule: reachable.induct)
  case init
  show ?case by (simp add: initialHistory_def)
next
  case (save hm cs ci t1 t2)
  from save.IH show ?case by (rule saveToHistory_length)
next
  case (undo hm)
  then show ?case by (simp add: undo_def Let_def)
next
  case (redo hm)
  then show ?case by (simp add: redo_def Let_def)
next
  case (clear hm)
  show ?case by (simp add: clearHistory_def)
qed

lemma commit_at_tail:
  assumes "currentIndex hm = int (length (history hm)) - 1"
  shows "commit K hm c =
     (if committable c then
        let pushed = history hm @ [snapshot_of c];
            newHistory = (if length pushed > K then tl pushed else pushed)
        in \<lparr>history = newHistory, currentIndex = int (length newHistory) - 1\<rparr>
      else hm)"
  using assms
  by (cases c) (auto simp: commit_def saveToHistory_def committable_def snapshot_of_def Let_def)

lemma commits_from_empty:
  "history (foldl (commit K) initialHistory cs) = last_n K (map snapshot_of (filter committable cs))
   \<and> currentIndex (foldl (commit K) initialHistory cs)
       = int (length (history (foldl (commit K) initialHistory cs))) - 1"
proof (induction cs rule: rev_induct)
  case Nil
  show ?case by (simp add: initialHistory_def last_n_def)
next
  case (snoc c cs)
  let ?hm = "foldl (commit K) initialHistory cs"
  from snoc have tail: "currentIndex ?hm = int (length (history ?hm)) - 1"
    and hist: "history ?hm = last_n K (map snapshot_of (filter committable cs))" by simp_all
  show ?case
  proof (cases "committable c")
    case True
    then show ?thesis
      using hist by (simp add: commit_at_tail [OF tail] Let_def last_n_snoc)
  next
    case False
    then show ?thesis using snoc by (simp add: commit_at_tail [OF tail])
  qed
qed

lemma reachable_cursor:
  "reachable K hm \<Longrightarrow>
     (history hm = [] \<and> currentIndex hm = - 1)
     \<or> (0 \<le> currentIndex hm \<and> currentIndex hm < int (length (history hm)))"
proof (induction rule: reachable.induct)
  case init
  show ?case by (simp add: initialHistory_def)
next
  case (save hm cs ci t1 t2)
  then show ?case by (auto simp: saveToHistory_def Let_def)
next
  case (undo hm)
  then show ?case by (auto simp: undo_def Let_def)
next
  case (redo hm)
  then show ?case by (auto simp: redo_def Let_def)
next
  case (clear hm)
  show ?case by (simp add: clearHistory_def)
qed

lemma reachable_commits: "reachable K (foldl (commit K) initialHistory cs)"
proof (induction cs rule: rev_induct)
  case Nil
  show ?case by (simp add: reachable.init)
next
  case (snoc c cs)
  then show ?case by (cases c) (simp add: commit_def reachable.save)
qed

lemma committable_sample [simp]: "committable (sample_session g p, t1, t2) = (g \<noteq> [])"
  by (simp add: committable_def sample_session_def truthy_def)

lemma saveToHistory_history:
  assumes "truthy (generatedImage cs)" and "0 \<le> ci" and "length (history hm) \<le> K"
  shows "history (saveToHistory K cs ci t1 t2 hm)
      = (if nat ci + 1 < length (history hm)
         then take (nat ci + 1) (history hm) @ [newState cs t1 t2]
         else if length (history hm) < K then history hm @ [newState cs t1 t2]
         else tl (history hm @ [newState cs t1 t2]))"
proof -
  from assms(2) have n: "nat (ci + 1) = nat ci + 1" by linarith
  from assms show ?thesis
    by (auto simp: saveToHistory_def Let_def n min_def)
qed

lemma saveToHistory_cursor:
  "truthy (generatedImage cs) \<Longrightarrow>
     currentIndex (saveToHistory K cs ci t1 t2 hm)
       = int (length (history (saveToHistory K cs ci t1 t2 hm))) - 1"
  by (simp add: saveToHistory_def Let_def)

lemma saveToHistory_ignores_cursor:
  "truthy (generatedImage cs) \<Longrightarrow>
     saveToHistory K cs ci t1 t2 (hm\<lparr>currentIndex := j\<rparr>) = saveToHistory K cs ci t1 t2 hm"
  by (simp add: saveToHistory_def Let_def)

lemma saveToHistory_evicts:
  assumes "length (history hm) = K" and "truthy (generatedImage cs)" and "int K - 1 \<le> ci"
  shows "history (saveToHistory K cs ci t1 t2 hm) = tl (history hm @ [newState cs t1 t2])"
  using assms by (auto simp: saveToHistory_def Let_def)

lemma reachable_stale: "reachable 3 stale_commits"
  unfolding stale_commits_def by (intro reachable.save reachable.init)

text \<open>
  Claim C2. In every state the hook can reach (whatever index a commit's closure
  captured, and with undo, redo and clear interleaved) the history holds at most
  \<open>maxHistorySize\<close> entries, and a commit into a full store whose captured index is at or
  past the tail drops the entry at index 0. The entries kept are the last
  \<open>maxHistorySize\<close> commits when every commit carries the cursor of the store it is
  applied to (\<^const>\<open>commit\<close>). With no undo and no redo they are still not the most
  recent ones in general, because \<^verbatim>\<open>saveToHistory\<close> truncates at the index its closure
  captured and \<^verbatim>\<open>handleGeneration\<close> calls the \<^verbatim>\<open>saveToHistory\<close> of the render that
  created it. In \<^const>\<open>stale_commits\<close> the third of four commits A, B, C, D carries the
  index captured before the second, and the store ends with A, C, D. In the run
  \<^const>\<open>race_trace\<close>, which has no undo and no redo, the store holds the commits of the
  clock readings 20 and 30 after \<^const>\<open>race_prefix\<close> and those of 20, 40 and 50 at the
  end: the commit of 30 is gone and the older one of 20 is kept.
\<close>

theorem C2_stale_index_drops_recent_commit:
  "(reachable K hm \<longrightarrow> length (history hm) \<le> K)
   \<and> (length (history hm) = K \<and> truthy (generatedImage cs) \<and> int K - 1 \<le> ci
        \<longrightarrow> history (saveToHistory K cs ci t1 t2 hm) = tl (history hm @ [newState cs t1 t2]))
   \<and> history (foldl (commit K) initialHistory commits)
       = last_n K (map snapshot_of (filter committable commits))
   \<and> reachable 3 stale_commits
   \<and> map generatedImage (history stale_commits) = [Some ''A'', Some ''C'', Some ''D'']
   \<and> Undo \<notin> set race_trace
   \<and> Redo \<notin> set race_trace
   \<and> map state_id (history (historyManager (app (run None 1 race_prefix))))
       = [''state-20'', ''state-30'']
   \<and> map state_id (history (historyManager (app (run None 1 race_trace))))
       = [''state-20'', ''state-40'', ''state-50'']"
proof (intro conjI impI)
  assume "reachable K hm"
  then show "length (history hm) \<le> K" by (rule reachable_length)
next
  assume "length (history hm) = K \<and> truthy (generatedImage cs) \<and> int K - 1 \<le> ci"
  then show "history (saveToHistory K cs ci t1 t2 hm) = tl (history hm @ [newState cs t1 t2])"
    by (simp add: saveToHistory_evicts)
next
  show "history (foldl (commit K) initialHistory commits)
       = last_n K (map snapshot_of (filter committable commits))"
    using commits_from_empty by blast
next
  show "reachable 3 stale_commits" by (rule reachable_stale)
next
  show "map generatedImage (history stale_commits) = [Some ''A'', Some ''C'', Some ''D'']"
    by code_simp
next
  show "Undo \<notin> set race_trace" by code_simp
next
  show "Redo \<notin> set race_trace" by code_simp
next
  show "map state_id (history (historyManager (app (run None 1 race_prefix))))
       = [''state-20'', ''state-30'']"
    by code_simp
next
  show "map state_id (history (historyManager (app (run None 1 race_trace))))
       = [''state-20'', ''state-40'', ''state-50'']"
    by code_simp
qed

theorem C2_stale_index_drops_recent_commit_witness:
  "reachable 3 stale_commits
   \<and> length (history stale_commits) = 3
   \<and> truthy (generatedImage (sample_session ''E'' ''e''))
   \<and> map generatedImage (history (saveToHistory 3 (sample_session ''E'' ''e'') 2 5 5
         stale_commits))
       = [Some ''C'', Some ''D'', Some ''E'']
   \<and> history (foldl (commit 3) initialHistory sample_commits)
       = map snapshot_of (drop 2 sample_commits)"
proof -
  note w = C2_stale_index_drops_recent_commit
    [where K = 3 and hm = stale_commits and cs = "sample_session ''E'' ''e''" and ci = 2
       and ?t1.0 = 5 and ?t2.0 = 5 and commits = sample_commits]
  from w have r: "reachable 3 stale_commits" by blast
  with w have "length (history stale_commits) \<le> 3" by blast
  moreover have "3 \<le> length (history stale_commits)" by code_simp
  ultimately have l: "length (history stale_commits) = 3" by simp
  have t: "truthy (generatedImage (sample_session ''E'' ''e''))" by code_simp
  from w l t have "history (saveToHistory 3 (sample_session ''E'' ''e'') 2 5 5 stale_commits)
      = tl (history stale_commits @ [newState (sample_session ''E'' ''e'') 5 5])"
    by simp
  moreover have "map generatedImage
      (tl (history stale_commits @ [newState (sample_session ''E'' ''e'') 5 5]))
      = [Some ''C'', Some ''D'', Some ''E'']"
    by code_simp
  ultimately have e: "map generatedImage (history (saveToHistory 3 (sample_session ''E'' ''e'')
      2 5 5 stale_commits)) = [Some ''C'', Some ''D'', Some ''E'']"
    by (simp only:)
  from w have h: "history (foldl (commit 3) initialHistory sample_commits)
       = map snapshot_of (drop 2 sample_commits)"
    by (simp add: sample_commits_def last_n_def)
  from r l t e h show ?thesis by blast
qed

text \<open>
  Claim C3. \<^verbatim>\<open>saveToHistory\<close> discards the entries after the index its closure captured,
  not those after the cursor of the store: for a captured index that is not negative and
  a store within its capacity, the entries from index 0 to the captured index are kept
  and the new snapshot follows them; when the captured index is at or past the tail
  nothing is discarded, and a full store loses its entry at index 0 instead. The cursor
  of the store is set, never read. For the store A, B, C with the cursor at B the result
  is A, B, D only when the captured index is 1. In the run \<^const>\<open>undo_in_flight_trace\<close>
  the store holds the commits of the clock readings 20, 30, 40 with the cursor on 30
  (undo was pressed while the request was outstanding) when the commit arrives with the
  captured index 2; the result is 30, 40, 50, where the claim gives 20, 30, 50.
\<close>

theorem C3_truncation_at_captured_index:
  "(truthy (generatedImage cs) \<and> 0 \<le> ci \<and> length (history hm) \<le> K \<longrightarrow>
      history (saveToHistory K cs ci t1 t2 hm)
        = (if nat ci + 1 < length (history hm)
           then take (nat ci + 1) (history hm) @ [newState cs t1 t2]
           else if length (history hm) < K then history hm @ [newState cs t1 t2]
           else tl (history hm @ [newState cs t1 t2]))
      \<and> currentIndex (saveToHistory K cs ci t1 t2 hm)
          = int (length (history (saveToHistory K cs ci t1 t2 hm))) - 1
      \<and> saveToHistory K cs ci t1 t2 (hm\<lparr>currentIndex := j\<rparr>)
          = saveToHistory K cs ci t1 t2 hm)
   \<and> map state_id (history (historyManager (app (run None 1 undo_in_flight_prefix))))
       = [''state-20'', ''state-30'', ''state-40'']
   \<and> currentIndex (historyManager (app (run None 1 undo_in_flight_prefix))) = 1
   \<and> map capturedIndex (saveTimers (run None 1 undo_in_flight_prefix)) = [2]
   \<and> map state_id (history (historyManager (app (run None 1 undo_in_flight_trace))))
       = [''state-30'', ''state-40'', ''state-50'']
   \<and> currentIndex (historyManager (app (run None 1 undo_in_flight_trace))) = 2"
proof (intro conjI impI)
  assume a: "truthy (generatedImage cs) \<and> 0 \<le> ci \<and> length (history hm) \<le> K"
  then show "history (saveToHistory K cs ci t1 t2 hm)
        = (if nat ci + 1 < length (history hm)
           then take (nat ci + 1) (history hm) @ [newState cs t1 t2]
           else if length (history hm) < K then history hm @ [newState cs t1 t2]
           else tl (history hm @ [newState cs t1 t2]))"
    by (simp only: saveToHistory_history)
  from a show "currentIndex (saveToHistory K cs ci t1 t2 hm)
          = int (length (history (saveToHistory K cs ci t1 t2 hm))) - 1"
    by (simp only: saveToHistory_cursor)
  from a show "saveToHistory K cs ci t1 t2 (hm\<lparr>currentIndex := j\<rparr>)
          = saveToHistory K cs ci t1 t2 hm"
    by (simp only: saveToHistory_ignores_cursor)
next
  show "map state_id (history (historyManager (app (run None 1 undo_in_flight_prefix))))
       = [''state-20'', ''state-30'', ''state-40'']"
    by code_simp
next
  show "currentIndex (historyManager (app (run None 1 undo_in_flight_prefix))) = 1"
    by code_simp
next
  show "map capturedIndex (saveTimers (run None 1 undo_in_flight_prefix)) = [2]"
    by code_simp
next
  show "map state_id (history (historyManager (app (run None 1 undo_in_flight_trace))))
       = [''state-30'', ''state-40'', ''state-50'']"
    by code_simp
next
  show "currentIndex (historyManager (app (run None 1 undo_in_flight_trace))) = 2"
    by code_simp
qed

theorem C3_truncation_at_captured_index_witness:
  "truthy (generatedImage (sample_session ''D'' ''d''))
   \<and> length (history abc_store) \<le> 3
   \<and> currentIndex abc_store = 1
   \<and> history (saveToHistory 3 (sample_session ''D'' ''d'') 2 4 4 abc_store)
       = [newState (sample_session ''B'' ''b'') 2 2,
          newState (sample_session ''C'' ''c'') 3 3,
          newState (sample_session ''D'' ''d'') 4 4]
   \<and> currentIndex (saveToHistory 3 (sample_session ''D'' ''d'') 2 4 4 abc_store) = 2
   \<and> history (saveToHistory 3 (sample_session ''D'' ''d'') 1 4 4 abc_store)
       = [newState (sample_session ''A'' ''a'') 1 1,
          newState (sample_session ''B'' ''b'') 2 2,
          newState (sample_session ''D'' ''d'') 4 4]
   \<and> currentIndex (saveToHistory 3 (sample_session ''D'' ''d'') 1 4 4 abc_store) = 2"
proof -
  have t: "truthy (generatedImage (sample_session ''D'' ''d''))"
    and l: "length (history abc_store) \<le> 3"
    and c: "currentIndex abc_store = 1"
    by (simp_all add: sample_session_def truthy_def abc_store_def)
  note stale = C3_truncation_at_captured_index
    [where cs = "sample_session ''D'' ''d''" and ci = 2 and hm = abc_store and K = 3
       and ?t1.0 = 4 and ?t2.0 = 4 and j = 2]
  note fresh = C3_truncation_at_captured_index
    [where cs = "sample_session ''D'' ''d''" and ci = 1 and hm = abc_store and K = 3
       and ?t1.0 = 4 and ?t2.0 = 4 and j = 2]
  from stale t l have s1: "history (saveToHistory 3 (sample_session ''D'' ''d'') 2 4 4 abc_store)
       = [newState (sample_session ''B'' ''b'') 2 2,
          newState (sample_session ''C'' ''c'') 3 3,
          newState (sample_session ''D'' ''d'') 4 4]"
    by (simp add: abc_store_def)
  from stale t l s1
  have s2: "currentIndex (saveToHistory 3 (sample_session ''D'' ''d'') 2 4 4 abc_store) = 2"
    by simp
  from fresh t l have f1: "history (saveToHistory 3 (sample_session ''D'' ''d'') 1 4 4 abc_store)
       = [newState (sample_session ''A'' ''a'') 1 1,
          newState (sample_session ''B'' ''b'') 2 2,
          newState (sample_session ''D'' ''d'') 4 4]"
    by (simp add: abc_store_def)
  from fresh t l f1
  have f2: "currentIndex (saveToHistory 3 (sample_session ''D'' ''d'') 1 4 4 abc_store) = 2"
    by simp
  from t l c s1 s2 f1 f2 show ?thesis by blast
qed

text \<open>
  Claim C4. In every reachable state of the store in which undo is enabled, undo followed
  by redo (no commit in between) leaves the store as it was, cursor included, and the
  snapshot that redo hands to the restore callback is the entry that was current before
  the undo.
\<close>

theorem C4_undo_redo_roundtrip:
  assumes "reachable K hm" and "canUndo hm"
  shows "fst (redo (fst (undo hm))) = hm
         \<and> snd (redo (fst (undo hm))) = Some (Some (history hm ! nat (currentIndex hm)))
         \<and> snd (undo hm) = Some (Some (history hm ! nat (currentIndex hm - 1)))
         \<and> history (fst (undo hm)) = history hm
         \<and> currentIndex (fst (undo hm)) = currentIndex hm - 1"
proof -
  from assms(2) have pos: "0 < currentIndex hm" by (simp add: canUndo_def)
  with reachable_cursor [OF assms(1)] have lt: "currentIndex hm < int (length (history hm))"
    by auto
  from pos lt show ?thesis
    by (simp add: undo_def redo_def Let_def js_index_def)
qed

theorem C4_undo_redo_roundtrip_witness:
  "canUndo (foldl (commit 3) initialHistory (take 2 sample_commits))
   \<and> snd (undo (foldl (commit 3) initialHistory (take 2 sample_commits)))
       = Some (Some (snapshot_of (sample_commits ! 0)))
   \<and> snd (redo (fst (undo (foldl (commit 3) initialHistory (take 2 sample_commits)))))
       = Some (Some (snapshot_of (sample_commits ! 1)))
   \<and> fst (redo (fst (undo (foldl (commit 3) initialHistory (take 2 sample_commits)))))
       = foldl (commit 3) initialHistory (take 2 sample_commits)"
proof -
  let ?hm = "foldl (commit 3) initialHistory (take 2 sample_commits)"
  have h: "history ?hm = map snapshot_of (take 2 sample_commits)"
    and i: "currentIndex ?hm = 1"
    using commits_from_empty [of 3 "take 2 sample_commits"]
    by (simp_all add: sample_commits_def last_n_def)
  from i have u: "canUndo ?hm" by (simp add: canUndo_def)
  have r: "reachable 3 ?hm" by (rule reachable_commits)
  from C4_undo_redo_roundtrip [OF r u] h i u show ?thesis
    by (simp add: sample_commits_def)
qed



section \<open>Properties of the orchestrator\<close>

lemma scanParts_image_truthy: "fst (scanParts ps) = None \<or> truthy (fst (scanParts ps))"
proof (induction ps rule: rev_induct)
  case Nil
  show ?case by (simp add: scanParts_def)
next
  case (snoc p ps)
  then show ?case
    by (cases "foldl (\<lambda>(resultImage, resultText) part.
              if truthy (inlineData part) then (inlineData part, resultText)
              else if truthy (part_text part) then (resultImage, part_text part)
              else (resultImage, resultText)) (None, None) ps")
       (auto simp: scanParts_def)
qed

lemma readCandidates_image_nonempty:
  "fst (readCandidates response) = Some img \<Longrightarrow> img \<noteq> []"
proof -
  assume a: "fst (readCandidates response) = Some img"
  have "fst (readCandidates response) = None \<or> truthy (fst (readCandidates response))"
    using scanParts_image_truthy
    by (auto simp: readCandidates_def split: option.splits list.splits)
  with a show ?thesis by (simp add: truthy_def)
qed

lemma validation_dispatch:
  "validationError (captured cl) = Some msg \<Longrightarrow>
     handleGeneration cl r1 r2 t1 t2 a = (a\<lparr>error := Some msg\<rparr>, [])"
  by (simp add: handleGeneration_def handleGeneration_dispatch_def)

text \<open>
  Claim C6. A first composite (the handler's session is in the initial mode) whose scene
  image is absent, or none of whose items carries an image, or whose prompt is empty, sends
  no request to the generation service and changes nothing but the error slot, which
  receives the message for missing inputs in the first two cases and the message for a
  missing prompt in the third; the two messages differ.
\<close>

theorem C6_validation_failure_sends_nothing:
  assumes "isInitialGeneration (captured cl)"
    and "\<not> truthy (roomImage (captured cl))
         \<or> validProducts (products (captured cl)) = []
         \<or> prompt (captured cl) = []"
  shows "snd (handleGeneration cl r1 r2 t1 t2 a) = []
    \<and> fst (handleGeneration cl r1 r2 t1 t2 a) =
        a\<lparr>error := Some (if \<not> truthy (roomImage (captured cl))
                              \<or> validProducts (products (captured cl)) = []
                           then missingInputsMessage else missingPromptMessage)\<rparr>
    \<and> missingInputsMessage \<noteq> missingPromptMessage"
proof -
  have "validationError (captured cl) =
          Some (if \<not> truthy (roomImage (captured cl))
                   \<or> validProducts (products (captured cl)) = []
                then missingInputsMessage else missingPromptMessage)"
    using assms by (auto simp: validationError_def)
  then show ?thesis
    by (simp add: validation_dispatch missingInputsMessage_def missingPromptMessage_def)
qed

lemma string_of_nat_1: "string_of_nat 1 = ''1''"
  by code_simp

lemmas sample_defs =
  sample_first_def sample_refine_def sample_no_scene_def sample_no_item_def
  sample_no_prompt_def sample_room_def image_response_def text_response_def
  initialApp_def INITIAL_PRODUCT_IMAGE_def initialHistory_def
  handlePromptChange_def handleUpdateProductImage_def closure_of_def currentState_of_def

lemmas handler_defs =
  handleGeneration_def handleGeneration_dispatch_def handleGeneration_settle_def
  validationError_def validProducts_def visualParams_def generateVisual_def
  multimodalStage_def textOnlyStage_def readCandidates_def scanParts_def
  simulateProgress_start_def simulateProgress_finally_def hideProgress_def saveTimer_def
  truthy_def render_null_def js_or_def errorMessage_def

theorem C6_validation_failure_sends_nothing_witness:
  "handleGeneration (closure_of sample_no_scene) (Inr (image_response ''IMG1''))
       (Inr (image_response ''IMG1'')) 10 10 sample_no_scene
     = (sample_no_scene\<lparr>error := Some missingInputsMessage\<rparr>, [])
   \<and> handleGeneration (closure_of sample_no_item) (Inr (image_response ''IMG1''))
       (Inr (image_response ''IMG1'')) 10 10 sample_no_item
     = (sample_no_item\<lparr>error := Some missingInputsMessage\<rparr>, [])
   \<and> handleGeneration (closure_of sample_no_prompt) (Inr (image_response ''IMG1''))
       (Inr (image_response ''IMG1'')) 10 10 sample_no_prompt
     = (sample_no_prompt\<lparr>error := Some missingPromptMessage\<rparr>, [])"
proof -
  have 1: "isInitialGeneration (captured (closure_of sample_no_scene))"
    "\<not> truthy (roomImage (captured (closure_of sample_no_scene)))"
    by (simp_all add: sample_defs truthy_def)
  have 2: "isInitialGeneration (captured (closure_of sample_no_item))"
    "validProducts (products (captured (closure_of sample_no_item))) = []"
    by (simp_all add: sample_defs truthy_def validProducts_def)
  have 3: "isInitialGeneration (captured (closure_of sample_no_prompt))"
    "prompt (captured (closure_of sample_no_prompt)) = []"
    "truthy (roomImage (captured (closure_of sample_no_prompt)))"
    "validProducts (products (captured (closure_of sample_no_prompt))) \<noteq> []"
    by (simp_all add: sample_defs truthy_def validProducts_def)
  from C6_validation_failure_sends_nothing
         [of "closure_of sample_no_scene" "Inr (image_response ''IMG1'')"
            "Inr (image_response ''IMG1'')" 10 10 sample_no_scene] 1
       C6_validation_failure_sends_nothing
         [of "closure_of sample_no_item" "Inr (image_response ''IMG1'')"
            "Inr (image_response ''IMG1'')" 10 10 sample_no_item] 2
       C6_validation_failure_sends_nothing
         [of "closure_of sample_no_prompt" "Inr (image_response ''IMG1'')"
            "Inr (image_response ''IMG1'')" 10 10 sample_no_prompt] 3
  show ?thesis by (simp add: prod_eq_iff)
qed

lemma multimodalStage_fails:
  "(\<exists>e. r1 = Inl e) \<or> (\<exists>response1. r1 = Inr response1
        \<and> \<not> truthy (fst (readCandidates response1)))
   \<Longrightarrow> multimodalStage r1 = None"
  by (auto simp: multimodalStage_def split: prod.splits)

lemma textOnlyStage_image:
  "fst (readCandidates response2) = Some img \<Longrightarrow>
     \<exists>txt. textOnlyStage (Inr response2) = Inr \<lparr>result_image = Some img, result_text = txt\<rparr>"
  by (frule readCandidates_image_nonempty)
     (auto simp: textOnlyStage_def truthy_def split: prod.splits)

lemma handleGeneration_success:
  assumes "validationError (captured cl) = None"
    and "generateVisual (visualParams (captured cl)) r1 r2 = (requests, Inr result)"
    and "result_image result = Some img" and "img \<noteq> []"
  shows "handleGeneration cl r1 r2 t1 t2 a =
     (hideProgress (saveTimer cl t1 t2 (simulateProgress_finally
        (a\<lparr>error := None, showLoadingProgress := True,
           loadingProgress := 0, loadingStatus := ''Initializing...'',
           generatedImage := Some (''data:image/png;base64,'' @ img),
           isInitialGeneration := False, prompt := [], isLoading := False\<rparr>))), requests)"
  using assms
  by (simp add: handleGeneration_def handleGeneration_dispatch_def handleGeneration_settle_def
      simulateProgress_start_def truthy_def render_null_def)

text \<open>
  Claim C7. When the composite passes its guards, the multimodal call throws or its
  response holds no image part, and the text-only call answers with an image, the
  operation ends in refinement mode with that image (as a PNG data URL) as the generated
  image, with no error message and the busy flag cleared, after two requests.
\<close>

theorem C7_fallback_image_is_success:
  assumes "validationError (captured cl) = None"
    and "(\<exists>e. r1 = Inl e) \<or> (\<exists>response1. r1 = Inr response1
            \<and> \<not> truthy (fst (readCandidates response1)))"
    and "r2 = Inr response2"
    and "fst (readCandidates response2) = Some img"
  shows "isInitialGeneration (fst (handleGeneration cl r1 r2 t1 t2 a)) = False
    \<and> generatedImage (fst (handleGeneration cl r1 r2 t1 t2 a))
        = Some (''data:image/png;base64,'' @ img)
    \<and> error (fst (handleGeneration cl r1 r2 t1 t2 a)) = None
    \<and> isLoading (fst (handleGeneration cl r1 r2 t1 t2 a)) = False
    \<and> length (snd (handleGeneration cl r1 r2 t1 t2 a)) = 2"
proof -
  from assms(2) have m: "multimodalStage r1 = None" by (rule multimodalStage_fails)
  from assms(4) obtain rtext where
    t: "textOnlyStage (Inr response2) = Inr \<lparr>result_image = Some img, result_text = rtext\<rparr>"
    using textOnlyStage_image by blast
  from assms(4) have ne: "img \<noteq> []" by (rule readCandidates_image_nonempty)
  obtain requests where
    g: "generateVisual (visualParams (captured cl)) r1 r2
          = (requests, Inr \<lparr>result_image = Some img, result_text = rtext\<rparr>)"
    and l: "length requests = 2"
    using m t assms(3) by (simp add: generateVisual_def Let_def)
  from handleGeneration_success [OF assms(1) g _ ne] l show ?thesis
    by (simp add: hideProgress_def saveTimer_def simulateProgress_finally_def)
qed

theorem C7_fallback_image_is_success_witness:
  "generatedImage (fst (handleGeneration (closure_of sample_first)
       (Inl (ErrorObj ''503'')) (Inr (image_response ''FALLBACK'')) 10 10 sample_first))
     = Some ''data:image/png;base64,FALLBACK''
   \<and> isInitialGeneration (fst (handleGeneration (closure_of sample_first)
       (Inl (ErrorObj ''503'')) (Inr (image_response ''FALLBACK'')) 10 10 sample_first)) = False
   \<and> error (fst (handleGeneration (closure_of sample_first)
       (Inl (ErrorObj ''503'')) (Inr (image_response ''FALLBACK'')) 10 10 sample_first)) = None
   \<and> generatedImage (fst (handleGeneration (closure_of sample_first)
       (Inr (text_response ''I cannot edit this image'')) (Inr (image_response ''FALLBACK''))
       10 10 sample_first))
     = Some ''data:image/png;base64,FALLBACK''
   \<and> error (fst (handleGeneration (closure_of sample_first)
       (Inr (text_response ''I cannot edit this image'')) (Inr (image_response ''FALLBACK''))
       10 10 sample_first)) = None"
proof -
  have v: "validationError (captured (closure_of sample_first)) = None"
    by (simp add: sample_defs validationError_def validProducts_def truthy_def)
  have r: "fst (readCandidates (image_response ''FALLBACK'')) = Some ''FALLBACK''"
    by (simp add: image_response_def readCandidates_def scanParts_def truthy_def)
  have n: "\<not> truthy (fst (readCandidates (text_response ''I cannot edit this image'')))"
    by (simp add: text_response_def readCandidates_def scanParts_def truthy_def)
  from C7_fallback_image_is_success [OF v _ refl r,
         of "Inl (ErrorObj ''503'')" 10 10 sample_first]
       C7_fallback_image_is_success [OF v _ refl r,
         of "Inr (text_response ''I cannot edit this image'')" 10 10 sample_first] n
  show ?thesis by simp
qed

lemma applyRestore_Some:
  "snd r = Some (Some s) \<Longrightarrow>
     applyRestore r a = Inr (onStateRestore s (a\<lparr>historyManager := fst r\<rparr>))"
  by (cases r) (simp add: applyRestore_def)

text \<open>
  Claim C10. Whenever undo or redo hands a snapshot to the restore callback, every
  session field (generated image, prompt, room image, the whole product list with each
  item's \<open>isGenerating\<close> flag, and the mode: the fields of \<^typ>\<open>currentState\<close>) becomes that of
  the snapshot and the error message is cleared; a snapshot made by \<open>saveToHistory\<close> from
  a session gives back exactly that session, since the copy of the product list it holds
  is equal to the original.
\<close>

theorem C10_restore_overwrites_session:
  "(snd (undo (historyManager a)) = Some (Some s) \<longrightarrow>
      (\<exists>a'. undoApp a = Inr a'
         \<and> generatedImage a' = generatedImage s \<and> prompt a' = prompt s
         \<and> roomImage a' = roomImage s \<and> products a' = products s
         \<and> isInitialGeneration a' = isInitialGeneration s \<and> error a' = None))
   \<and> (snd (redo (historyManager a)) = Some (Some s) \<longrightarrow>
      (\<exists>a'. redoApp a = Inr a'
         \<and> generatedImage a' = generatedImage s \<and> prompt a' = prompt s
         \<and> roomImage a' = roomImage s \<and> products a' = products s
         \<and> isInitialGeneration a' = isInitialGeneration s \<and> error a' = None))
   \<and> currentState_of (onStateRestore (newState cs t1 t2) a) = cs
   \<and> error (onStateRestore (newState cs t1 t2) a) = None"
proof (intro conjI impI)
  assume "snd (undo (historyManager a)) = Some (Some s)"
  then have "undoApp a
      = Inr (onStateRestore s (a\<lparr>historyManager := fst (undo (historyManager a))\<rparr>))"
    by (simp add: undoApp_def applyRestore_Some)
  then show "\<exists>a'. undoApp a = Inr a'
         \<and> generatedImage a' = generatedImage s \<and> prompt a' = prompt s
         \<and> roomImage a' = roomImage s \<and> products a' = products s
         \<and> isInitialGeneration a' = isInitialGeneration s \<and> error a' = None"
    by (simp add: onStateRestore_def)
next
  assume "snd (redo (historyManager a)) = Some (Some s)"
  then have "redoApp a
      = Inr (onStateRestore s (a\<lparr>historyManager := fst (redo (historyManager a))\<rparr>))"
    by (simp add: redoApp_def applyRestore_Some)
  then show "\<exists>a'. redoApp a = Inr a'
         \<and> generatedImage a' = generatedImage s \<and> prompt a' = prompt s
         \<and> roomImage a' = roomImage s \<and> products a' = products s
         \<and> isInitialGeneration a' = isInitialGeneration s \<and> error a' = None"
    by (simp add: onStateRestore_def)
next
  show "currentState_of (onStateRestore (newState cs t1 t2) a) = cs"
    by (simp add: currentState_of_def onStateRestore_def newState_def)
next
  show "error (onStateRestore (newState cs t1 t2) a) = None"
    by (simp add: onStateRestore_def)
qed

theorem C10_restore_overwrites_session_witness:
  "snd (undo (historyManager sample_two_snapshots))
     = Some (Some (newState sample_busy_snapshot 20 20))
   \<and> (\<exists>a'. undoApp sample_two_snapshots = Inr a'
         \<and> currentState_of a' = sample_busy_snapshot
         \<and> map isGenerating (products a') = [True]
         \<and> map isGenerating (products sample_two_snapshots) = [False]
         \<and> error a' = None)"
proof -
  have h: "historyManager sample_two_snapshots
      = \<lparr>history = [newState sample_busy_snapshot 20 20,
                     newState (currentState_of sample_refine) 30 30],
         currentIndex = 1\<rparr>"
    by (simp add: sample_two_snapshots_def defaultMaxHistorySize_def initialHistory_def
        commit_def saveToHistory_def Let_def truthy_def
        sample_busy_snapshot_def sample_defs setProductGenerating_def handler_defs)
  then have u: "snd (undo (historyManager sample_two_snapshots))
     = Some (Some (newState sample_busy_snapshot 20 20))"
    by (simp add: undo_def Let_def js_index_def)
  have p: "map isGenerating (products sample_busy_snapshot) = [True]"
    "map isGenerating (products sample_two_snapshots) = [False]"
    by (simp_all add: sample_two_snapshots_def sample_busy_snapshot_def sample_defs
        setProductGenerating_def handler_defs)
  from C10_restore_overwrites_session
         [of sample_two_snapshots "newState sample_busy_snapshot 20 20" sample_busy_snapshot 20 20]
       u obtain a' where a: "undoApp sample_two_snapshots = Inr a'"
       "generatedImage a' = generatedImage (newState sample_busy_snapshot 20 20)"
       "prompt a' = prompt (newState sample_busy_snapshot 20 20)"
       "roomImage a' = roomImage (newState sample_busy_snapshot 20 20)"
       "products a' = products (newState sample_busy_snapshot 20 20)"
       "isInitialGeneration a' = isInitialGeneration (newState sample_busy_snapshot 20 20)"
       "error a' = None"
    by blast
  then have "currentState_of a' = sample_busy_snapshot"
    by (simp add: currentState_of_def newState_def)
  with a p u show ?thesis by (simp add: newState_def)
qed

text \<open>
  Claim C5. After \<open>resetExperience\<close>, from any state: the mode is initial, there is exactly
  one item, with the default item image (absent) and not generating, the generated image
  is absent, there is no error, \<open>isLoading\<close> is false and the history is empty. The busy
  flag of the scene, \<open>isGeneratingRoom\<close>, is not among the cells that are reset: it keeps
  its value. The run \<^const>\<open>reset_trace\<close> reaches such a reset with a scene request
  outstanding and ends with the flag set.
\<close>

theorem C5_reset_leaves_scene_flag:
  "isInitialGeneration (resetExperience room now a)
   \<and> products (resetExperience room now a)
       = [\<lparr>product_id = ''prod-'' @ string_of_nat now, image = None, isGenerating = False\<rparr>]
   \<and> generatedImage (resetExperience room now a) = None
   \<and> error (resetExperience room now a) = None
   \<and> isLoading (resetExperience room now a) = False
   \<and> hasHistory (historyManager (resetExperience room now a)) = False
   \<and> isGeneratingRoom (resetExperience room now a) = isGeneratingRoom a
   \<and> isGeneratingRoom (app (run None 1 reset_trace)) = True
   \<and> roomRequests (run None 1 reset_trace) = 1"
proof -
  have general: "isInitialGeneration (resetExperience room now a)
   \<and> products (resetExperience room now a)
       = [\<lparr>product_id = ''prod-'' @ string_of_nat now, image = None, isGenerating = False\<rparr>]
   \<and> generatedImage (resetExperience room now a) = None
   \<and> error (resetExperience room now a) = None
   \<and> isLoading (resetExperience room now a) = False
   \<and> hasHistory (historyManager (resetExperience room now a)) = False
   \<and> isGeneratingRoom (resetExperience room now a) = isGeneratingRoom a"
    by (simp add: resetExperience_def clearHistoryApp_def clearHistory_def hasHistory_def
        INITIAL_PRODUCT_IMAGE_def)
  have reached: "isGeneratingRoom (app (run None 1 reset_trace)) = True
   \<and> roomRequests (run None 1 reset_trace) = 1"
    by code_simp
  from general reached show ?thesis by blast
qed

lemma saveToHistory_last:
  assumes "truthy (generatedImage cs)" and "0 < K"
  shows "history (saveToHistory K cs ci t1 t2 hm) \<noteq> []
         \<and> last (history (saveToHistory K cs ci t1 t2 hm)) = newState cs t1 t2"
proof -
  define spliced where "spliced = (if ci \<ge> 0 then take (nat (ci + 1)) (history hm) else history hm)"
  have h: "history (saveToHistory K cs ci t1 t2 hm)
      = (if length (spliced @ [newState cs t1 t2]) > K then tl (spliced @ [newState cs t1 t2])
         else spliced @ [newState cs t1 t2])"
    using assms(1) by (simp add: saveToHistory_def Let_def spliced_def)
  show ?thesis
  proof (cases spliced)
    case Nil
    with h assms(2) show ?thesis by simp
  next
    case (Cons x xs)
    with h show ?thesis by simp
  qed
qed

lemma saveToHistory_skip:
  "\<not> truthy (generatedImage cs) \<Longrightarrow> saveToHistory K cs ci t1 t2 hm = hm"
  by (simp add: saveToHistory_def)

text \<open>
  Claim C1. When a composite succeeds with an image, the session receives the new image,
  an empty prompt and refinement mode. The commit that follows is the \<open>saveToHistory\<close> of
  the handler's closure, so it reads the session of the render that dispatched the
  request, not the updated one: if that session had no generated image (every first
  composite) nothing is committed, and otherwise the snapshot appended holds the image
  that was on display before the request and the prompt as typed, which is not empty.
  The instances after the theorem are a first composite and the refinement that follows
  it, by the handler alone and as the runs \<^const>\<open>first_composite_trace\<close> and
  \<^const>\<open>refinement_trace\<close> of the whole application.
\<close>

theorem C1_commit_snapshots_captured_state:
  assumes "captured cl = currentState_of a"
    and "validationError (currentState_of a) = None"
    and "snd (generateVisual (visualParams (currentState_of a)) r1 r2) = Inr result"
    and "result_image result = Some img" and "img \<noteq> []"
  shows "generatedImage (fst (handleGeneration cl r1 r2 t1 t2 a))
           = Some (''data:image/png;base64,'' @ img)
    \<and> prompt (fst (handleGeneration cl r1 r2 t1 t2 a)) = []
    \<and> isInitialGeneration (fst (handleGeneration cl r1 r2 t1 t2 a)) = False
    \<and> historyManager (fst (handleGeneration cl r1 r2 t1 t2 a))
        = saveToHistory defaultMaxHistorySize (currentState_of a) (capturedIndex cl) t1 t2
            (historyManager a)
    \<and> (if truthy (generatedImage a)
        then last (history (historyManager (fst (handleGeneration cl r1 r2 t1 t2 a))))
               = newState (currentState_of a) t1 t2
             \<and> prompt (newState (currentState_of a) t1 t2) = prompt a
             \<and> prompt a \<noteq> []
             \<and> generatedImage (newState (currentState_of a) t1 t2) = generatedImage a
        else historyManager (fst (handleGeneration cl r1 r2 t1 t2 a)) = historyManager a)"
proof -
  obtain requests where
    g: "generateVisual (visualParams (captured cl)) r1 r2 = (requests, Inr result)"
    using assms(1,3) by (cases "generateVisual (visualParams (currentState_of a)) r1 r2") simp
  from assms(1,2) have v: "validationError (captured cl) = None" by simp
  note run = handleGeneration_success [OF v g assms(4,5), of t1 t2 a]
  have hm: "historyManager (fst (handleGeneration cl r1 r2 t1 t2 a))
        = saveToHistory defaultMaxHistorySize (currentState_of a) (capturedIndex cl) t1 t2
            (historyManager a)"
    using run assms(1)
    by (simp add: hideProgress_def saveTimer_def simulateProgress_finally_def)
  have p: "prompt a \<noteq> []"
    using assms(2) by (auto simp: validationError_def currentState_of_def split: if_splits)
  have g': "generatedImage (currentState_of a) = generatedImage a"
    by (simp add: currentState_of_def)
  have last: "truthy (generatedImage a) \<Longrightarrow>
      last (history (saveToHistory defaultMaxHistorySize (currentState_of a) (capturedIndex cl)
              t1 t2 (historyManager a))) = newState (currentState_of a) t1 t2"
    using saveToHistory_last [of "currentState_of a" defaultMaxHistorySize]
    by (simp add: g' defaultMaxHistorySize_def)
  have skip: "\<not> truthy (generatedImage a) \<Longrightarrow>
      saveToHistory defaultMaxHistorySize (currentState_of a) (capturedIndex cl)
              t1 t2 (historyManager a) = historyManager a"
    using saveToHistory_skip [of "currentState_of a"] by (simp add: g')
  from run hm p last skip show ?thesis
    by (simp add: hideProgress_def saveTimer_def simulateProgress_finally_def
        newState_def currentState_of_def)
qed

theorem C1_commit_snapshots_captured_state_witness:
  "generatedImage (fst (handleGeneration (closure_of sample_first)
       (Inr (image_response ''IMG1'')) (Inr (image_response ''unused'')) 10 10 sample_first))
     = Some ''data:image/png;base64,IMG1''
   \<and> historyManager (fst (handleGeneration (closure_of sample_first)
       (Inr (image_response ''IMG1'')) (Inr (image_response ''unused'')) 10 10 sample_first))
     = initialHistory
   \<and> generatedImage (fst (handleGeneration (closure_of sample_refine)
       (Inr (image_response ''IMG2'')) (Inr (image_response ''unused'')) 20 20 sample_refine))
     = Some ''data:image/png;base64,IMG2''
   \<and> prompt (fst (handleGeneration (closure_of sample_refine)
       (Inr (image_response ''IMG2'')) (Inr (image_response ''unused'')) 20 20 sample_refine))
     = []
   \<and> generatedImage (last (history (historyManager (fst (handleGeneration
       (closure_of sample_refine)
       (Inr (image_response ''IMG2'')) (Inr (image_response ''unused'')) 20 20 sample_refine)))))
     = Some ''data:image/png;base64,IMG1''
   \<and> prompt (last (history (historyManager (fst (handleGeneration
       (closure_of sample_refine)
       (Inr (image_response ''IMG2'')) (Inr (image_response ''unused'')) 20 20 sample_refine)))))
     = ''make it brighter''
   \<and> generatedImage (app (run None 1 first_composite_trace))
     = Some ''data:image/png;base64,IMG1''
   \<and> saveTimers (run None 1 first_composite_trace) = []
   \<and> history (historyManager (app (run None 1 first_composite_trace))) = []
   \<and> generatedImage (app (run None 1 refinement_trace))
     = Some ''data:image/png;base64,IMG2''
   \<and> prompt (app (run None 1 refinement_trace)) = []
   \<and> saveTimers (run None 1 refinement_trace) = []
   \<and> map generatedImage (history (historyManager (app (run None 1 refinement_trace))))
     = [Some ''data:image/png;base64,IMG1'']
   \<and> map prompt (history (historyManager (app (run None 1 refinement_trace))))
     = [''make it brighter'']"
proof -
  have run1: "generatedImage (app (run None 1 first_composite_trace))
     = Some ''data:image/png;base64,IMG1''
   \<and> saveTimers (run None 1 first_composite_trace) = []
   \<and> history (historyManager (app (run None 1 first_composite_trace))) = []"
    by code_simp
  have run2: "generatedImage (app (run None 1 refinement_trace))
     = Some ''data:image/png;base64,IMG2''
   \<and> prompt (app (run None 1 refinement_trace)) = []
   \<and> saveTimers (run None 1 refinement_trace) = []
   \<and> map generatedImage (history (historyManager (app (run None 1 refinement_trace))))
     = [Some ''data:image/png;base64,IMG1'']
   \<and> map prompt (history (historyManager (app (run None 1 refinement_trace))))
     = [''make it brighter'']"
    by code_simp
  have first: "validationError (currentState_of sample_first) = None"
    "generatedImage sample_first = None"
    "historyManager sample_first = initialHistory"
    by (simp_all add: sample_defs validationError_def validProducts_def truthy_def)
  have refine: "validationError (currentState_of sample_refine) = None"
    "generatedImage sample_refine = Some ''data:image/png;base64,IMG1''"
    "prompt sample_refine = ''make it brighter''"
    by (simp_all add: sample_defs handler_defs)
  have gen: "\<And>cs i. i \<noteq> [] \<Longrightarrow>
       snd (generateVisual (visualParams cs) (Inr (image_response i))
                 (Inr (image_response ''unused'')))
       = Inr \<lparr>result_image = Some i, result_text = None\<rparr>"
    by (simp add: generateVisual_def multimodalStage_def textOnlyStage_def readCandidates_def
        scanParts_def image_response_def truthy_def Let_def)
  have h1: "captured (closure_of sample_first) = currentState_of sample_first"
    and h2: "captured (closure_of sample_refine) = currentState_of sample_refine"
    by (simp_all add: closure_of_def)
  note w1 = C1_commit_snapshots_captured_state
    [OF h1 first(1) gen [where cs = "currentState_of sample_first" and i = "''IMG1''"],
     of "''IMG1''" 10 10]
  note w2 = C1_commit_snapshots_captured_state
    [OF h2 refine(1) gen [where cs = "currentState_of sample_refine" and i = "''IMG2''"],
     of "''IMG2''" 20 20]
  have t1: "\<not> truthy (generatedImage sample_first)"
    and t2: "truthy (generatedImage sample_refine)"
    by (simp_all add: first refine truthy_def)
  from w1 have a1: "generatedImage (fst (handleGeneration (closure_of sample_first)
       (Inr (image_response ''IMG1'')) (Inr (image_response ''unused'')) 10 10 sample_first))
     = Some ''data:image/png;base64,IMG1''" by simp
  from w1 t1 have a2: "historyManager (fst (handleGeneration (closure_of sample_first)
       (Inr (image_response ''IMG1'')) (Inr (image_response ''unused'')) 10 10 sample_first))
     = historyManager sample_first" by (auto split: if_splits)
  from w2 have b1: "generatedImage (fst (handleGeneration (closure_of sample_refine)
       (Inr (image_response ''IMG2'')) (Inr (image_response ''unused'')) 20 20 sample_refine))
     = Some ''data:image/png;base64,IMG2''"
    and b2: "prompt (fst (handleGeneration (closure_of sample_refine)
       (Inr (image_response ''IMG2'')) (Inr (image_response ''unused'')) 20 20 sample_refine))
     = []" by simp_all
  from w2 t2 have b3: "last (history (historyManager (fst (handleGeneration
       (closure_of sample_refine)
       (Inr (image_response ''IMG2'')) (Inr (image_response ''unused'')) 20 20 sample_refine))))
     = newState (currentState_of sample_refine) 20 20"
    by (auto split: if_splits)
  have direct: "generatedImage (fst (handleGeneration (closure_of sample_first)
       (Inr (image_response ''IMG1'')) (Inr (image_response ''unused'')) 10 10 sample_first))
     = Some ''data:image/png;base64,IMG1''
   \<and> historyManager (fst (handleGeneration (closure_of sample_first)
       (Inr (image_response ''IMG1'')) (Inr (image_response ''unused'')) 10 10 sample_first))
     = initialHistory
   \<and> generatedImage (fst (handleGeneration (closure_of sample_refine)
       (Inr (image_response ''IMG2'')) (Inr (image_response ''unused'')) 20 20 sample_refine))
     = Some ''data:image/png;base64,IMG2''
   \<and> prompt (fst (handleGeneration (closure_of sample_refine)
       (Inr (image_response ''IMG2'')) (Inr (image_response ''unused'')) 20 20 sample_refine))
     = []
   \<and> generatedImage (last (history (historyManager (fst (handleGeneration
       (closure_of sample_refine)
       (Inr (image_response ''IMG2'')) (Inr (image_response ''unused'')) 20 20 sample_refine)))))
     = Some ''data:image/png;base64,IMG1''
   \<and> prompt (last (history (historyManager (fst (handleGeneration
       (closure_of sample_refine)
       (Inr (image_response ''IMG2'')) (Inr (image_response ''unused'')) 20 20 sample_refine)))))
     = ''make it brighter''"
    unfolding a1 a2 b1 b2 b3 first(3)
    by (simp add: newState_def currentState_of_def refine)
  from direct run1 run2 show ?thesis by blast
qed

section \<open>Progress display and busy flags\<close>

lemma progressTick_bound:
  assumes "0 \<le> r" and "r < 1" and "0 \<le> loadingProgress a" and "loadingProgress a < 105"
  shows "0 \<le> loadingProgress (progressTick r a) \<and> loadingProgress (progressTick r a) < 105"
  using assms by (auto simp: progressTick_def)

lemma progressRun_snoc: "progressRun (es @ [e]) s = progressStep e (progressRun es s)"
  by (simp add: progressRun_def)

lemma progressRun_outstanding:
  assumes "\<forall>e \<in> set es. whileOutstanding e"
  shows "0 \<le> loadingProgress (fst (progressRun es (simulateProgress_begin a)))
       \<and> loadingProgress (fst (progressRun es (simulateProgress_begin a))) < 105
       \<and> progressInterval (snd (progressRun es (simulateProgress_begin a))) = Some 200
       \<and> statusInterval (snd (progressRun es (simulateProgress_begin a))) = Some 1000
       \<and> showLoadingProgress (fst (progressRun es (simulateProgress_begin a)))"
  using assms
proof (induction es rule: rev_induct)
  case Nil
  show ?case
    by (simp add: progressRun_def simulateProgress_begin_def simulateProgress_start_def)
next
  case (snoc e es)
  then have ih: "0 \<le> loadingProgress (fst (progressRun es (simulateProgress_begin a)))"
    "loadingProgress (fst (progressRun es (simulateProgress_begin a))) < 105"
    "progressInterval (snd (progressRun es (simulateProgress_begin a))) = Some 200"
    "statusInterval (snd (progressRun es (simulateProgress_begin a))) = Some 1000"
    "showLoadingProgress (fst (progressRun es (simulateProgress_begin a)))"
    and e: "whileOutstanding e" by simp_all
  obtain a1 t1 where s: "progressRun es (simulateProgress_begin a) = (a1, t1)"
    by (cases "progressRun es (simulateProgress_begin a)")
  show ?case
  proof (cases e)
    case (ProgressFires r)
    with e ih s progressTick_bound [of r a1] show ?thesis
      by (simp add: progressRun_snoc) (simp add: progressTick_def)
  next
    case StatusFires
    with ih s show ?thesis by (simp add: progressRun_snoc statusTick_def)
  next
    case RequestSettles
    with e show ?thesis by simp
  next
    case HideFires
    with e show ?thesis by simp
  qed
qed




lemma map_flag_False:
  assumes "p \<in> set (map (\<lambda>q. if product_id q = pid then q\<lparr>isGenerating := False\<rparr> else q) ps)"
    and "product_id p = pid"
  shows "\<not> isGenerating p"
proof -
  from assms(1) obtain x where
    p: "p = (if product_id x = pid then x\<lparr>isGenerating := False\<rparr> else x)"
    by (auto simp only: set_map image_iff)
  show ?thesis
  proof (cases "product_id x = pid")
    case True
    with p have "p = x\<lparr>isGenerating := False\<rparr>" by (simp only: if_True simp_thms)
    then show ?thesis by simp
  next
    case False
    with p have "p = x" by (simp only: if_False simp_thms)
    with False assms(2) show ?thesis by simp
  qed
qed

lemma products_setProductGenerating:
  "products (setProductGenerating pid b a)
     = map (\<lambda>q. if product_id q = pid then q\<lparr>isGenerating := b\<rparr> else q) (products a)"
  by (simp add: setProductGenerating_def)

lemma settle_clears_item:
  assumes "p \<in> set (products (handleGenerateProduct_settle pid index outcome a))"
    and "product_id p = pid"
  shows "\<not> isGenerating p"
  using assms
  unfolding handleGenerateProduct_settle_def products_setProductGenerating
  by (rule map_flag_False)

lemma settle_clears_loading: "isLoading (fst (handleGeneration_settle outcome a)) = False"
  by (simp add: handleGeneration_settle_def simulateProgress_finally_def
      split: sum.splits prod.splits)

lemma settle_clears_room: "isGeneratingRoom (handleGenerateRoom_settle outcome a) = False"
  by (simp add: handleGenerateRoom_settle_def split: sum.splits)

lemma handleGeneration_loading:
  "isLoading (fst (handleGeneration cl r1 r2 t1 t2 a))
     = (isLoading a \<and> validationError (captured cl) \<noteq> None)"
proof (cases "validationError (captured cl)")
  case None
  obtain requests outcome where
    g: "generateVisual (visualParams (captured cl)) r1 r2 = (requests, outcome)"
    by (cases "generateVisual (visualParams (captured cl)) r1 r2")
  obtain a2 saved where
    st: "handleGeneration_settle outcome
           (simulateProgress_start (a\<lparr>isLoading := True, error := None\<rparr>)) = (a2, saved)"
    by (cases "handleGeneration_settle outcome
           (simulateProgress_start (a\<lparr>isLoading := True, error := None\<rparr>))")
  from settle_clears_loading [of outcome
         "simulateProgress_start (a\<lparr>isLoading := True, error := None\<rparr>)"] st
  have "isLoading a2 = False" by simp
  with None g st show ?thesis
    by (simp add: handleGeneration_def handleGeneration_dispatch_def hideProgress_def
        saveTimer_def)
next
  case (Some msg)
  then show ?thesis
    by (simp add: handleGeneration_def handleGeneration_dispatch_def)
qed

lemma generatingIds_Nil [simp]: "generatingIds [] = {}"
  by (simp add: generatingIds_def)

lemma generatingIds_Cons [simp]:
  "generatingIds (p # ps)
     = (if isGenerating p then insert (product_id p) (generatingIds ps) else generatingIds ps)"
  by (auto simp: generatingIds_def)

lemma generatingIds_append [simp]:
  "generatingIds (ps @ qs) = generatingIds ps \<union> generatingIds qs"
  by (induction ps) auto

lemma generatingIds_filter: "generatingIds (filter P ps) \<subseteq> generatingIds ps"
  by (induction ps) auto

lemma generatingIds_image:
  "generatingIds (map (\<lambda>p. if product_id p = pid then p\<lparr>image := img\<rparr> else p) ps)
     = generatingIds ps"
  by (induction ps) auto

lemma generatingIds_flag_True:
  "generatingIds (map (\<lambda>q. if product_id q = pid then q\<lparr>isGenerating := True\<rparr> else q) ps)
     \<subseteq> insert pid (generatingIds ps)"
  by (induction ps) auto

lemma generatingIds_flag_False:
  "generatingIds (map (\<lambda>q. if product_id q = pid then q\<lparr>isGenerating := False\<rparr> else q) ps)
     \<subseteq> generatingIds ps - {pid}"
  by (induction ps) auto

lemma remove_nth_set:
  "js_index xs (int k) = Some x \<Longrightarrow> set xs \<subseteq> insert x (set (remove_nth k xs))"
proof -
  assume a: "js_index xs (int k) = Some x"
  then have k: "k < length xs" and x: "xs ! k = x"
    by (auto simp: js_index_def split: if_splits)
  from k have "xs = take k xs @ [xs ! k] @ drop (Suc k) xs"
    by (simp add: Cons_nth_drop_Suc)
  then have "set xs = set (take k xs) \<union> {xs ! k} \<union> set (drop (Suc k) xs)"
    by (metis set_append list.set(2) list.set(1) append_Cons append_Nil Un_insert_right sup_bot.right_neutral Un_assoc)
  with x show ?thesis by (auto simp: remove_nth_def)
qed


lemma rerender_fields [simp]:
  "app (rerender w) = app w"
  "productRequests (rerender w) = productRequests w"
  "roomRequests (rerender w) = roomRequests w"
  "compositeRequests (rerender w) = compositeRequests w"
  by (simp_all add: rerender_def)

lemma settle_products:
  "products (fst (handleGeneration_settle outcome a)) = products a"
  by (simp add: handleGeneration_settle_def simulateProgress_finally_def
      split: sum.splits prod.splits)

lemma dispatch_products:
  "products (fst (handleGeneration_dispatch cl a)) = products a"
  by (simp add: handleGeneration_dispatch_def simulateProgress_start_def split: option.splits)

lemma item_settle_ids:
  "generatingIds (products (handleGenerateProduct_settle pid index outcome a))
     \<subseteq> generatingIds (products a) - {pid}"
proof (cases outcome)
  case (Inl e)
  then show ?thesis
    using generatingIds_flag_False [of pid "products a"]
    by (simp add: handleGenerateProduct_settle_def setProductGenerating_def)
next
  case (Inr result)
  then show ?thesis
    using generatingIds_flag_False [of pid
        "map (\<lambda>p. if product_id p = pid then p\<lparr>image := Some result\<rparr> else p) (products a)"]
      generatingIds_image [of pid "Some result" "products a"]
    by (simp add: handleGenerateProduct_settle_def setProductGenerating_def
        handleUpdateProductImage_def)
qed

lemma item_dispatch_ids:
  "generatingIds (products (fst (handleGenerateProduct_dispatch pid genPrompt index a)))
     \<subseteq> (if snd (handleGenerateProduct_dispatch pid genPrompt index a)
          then insert pid (generatingIds (products a)) else generatingIds (products a))"
  using generatingIds_flag_True [of pid "products a"]
  by (simp add: handleGenerateProduct_dispatch_def setProductGenerating_def)

lemma step_item_flags:
  assumes inv: "generatingIds (products (app w)) \<subseteq> fst ` set (productRequests w)"
    and e: "e \<noteq> Undo" "e \<noteq> Redo"
  shows "generatingIds (products (app (step room w e)))
           \<subseteq> fst ` set (productRequests (step room w e))"
proof (cases e)
  case (AddProduct now)
  with inv show ?thesis by (simp add: step_def handleAddProduct_def)
next
  case (RemoveProduct pid)
  with inv generatingIds_filter [of "\<lambda>p. product_id p \<noteq> pid" "products (app w)"]
  show ?thesis by (auto simp: step_def handleRemoveProduct_def)
next
  case (UploadProduct pid img)
  with inv show ?thesis
    by (simp add: step_def handleUpdateProductImage_def generatingIds_image)
next
  case (UploadRoom img)
  with inv show ?thesis by (simp add: step_def)
next
  case (GenerateProduct pid genPrompt index)
  obtain a sent where d: "handleGenerateProduct_dispatch pid genPrompt index (app w) = (a, sent)"
    by (cases "handleGenerateProduct_dispatch pid genPrompt index (app w)")
  with item_dispatch_ids [of pid genPrompt index "app w"]
  have "generatingIds (products a)
     \<subseteq> (if sent then insert pid (generatingIds (products (app w)))
         else generatingIds (products (app w)))" by simp
  with inv GenerateProduct d show ?thesis
    by (auto simp: step_def split: if_splits)
next
  case (ProductSettles k r)
  show ?thesis
  proof (cases "js_index (productRequests w) (int k)")
    case None
    with inv ProductSettles show ?thesis by (simp add: step_def)
  next
    case (Some q)
    obtain pid index where q: "q = (pid, index)" by (cases q)
    from remove_nth_set [OF Some] q
    have "fst ` set (productRequests w)
            \<subseteq> insert pid (fst ` set (remove_nth k (productRequests w)))" by auto
    with inv item_settle_ids [of pid index "generateSourceImage r" "app w"]
    have "generatingIds (products (handleGenerateProduct_settle pid index
              (generateSourceImage r) (app w)))
            \<subseteq> fst ` set (remove_nth k (productRequests w))" by blast
    with ProductSettles Some q show ?thesis by (simp add: step_def)
  qed
next
  case (GenerateRoom genPrompt)
  with inv show ?thesis
    by (simp add: step_def handleGenerateRoom_dispatch_def)
next
  case (RoomSettles r)
  with inv show ?thesis
    by (simp add: step_def handleGenerateRoom_settle_def split: sum.splits)
next
  case (TypePrompt s)
  with inv show ?thesis by (simp add: step_def handlePromptChange_def Let_def)
next
  case Submit
  obtain a sent where d: "handleGeneration_dispatch (handler w) (app w) = (a, sent)"
    by (cases "handleGeneration_dispatch (handler w) (app w)")
  with dispatch_products [of "handler w" "app w"] have "products a = products (app w)" by simp
  with inv Submit d show ?thesis by (simp add: step_def)
next
  case (CompositeSettles k r1 r2)
  show ?thesis
  proof (cases "js_index (compositeRequests w) (int k)")
    case None
    with inv CompositeSettles show ?thesis by (simp add: step_def)
  next
    case (Some cl)
    obtain a saved where d: "handleGeneration_settle
        (snd (generateVisual (visualParams (captured cl)) r1 r2)) (app w) = (a, saved)"
      by (cases "handleGeneration_settle
        (snd (generateVisual (visualParams (captured cl)) r1 r2)) (app w)")
    with settle_products [of "snd (generateVisual (visualParams (captured cl)) r1 r2)" "app w"]
    have "products a = products (app w)" by simp
    with inv CompositeSettles Some d show ?thesis by (simp add: step_def)
  qed
next
  case (SaveTimerFires k t1 t2)
  with inv show ?thesis by (simp add: step_def saveTimer_def split: option.splits)
next
  case HideTimerFires
  with inv show ?thesis by (simp add: step_def hideProgress_def)
next
  case Undo
  with e show ?thesis by simp
next
  case Redo
  with e show ?thesis by simp
next
  case ClearHistory
  with inv show ?thesis by (simp add: step_def clearHistoryApp_def)
next
  case (StartOver now)
  with inv show ?thesis by (simp add: step_def resetExperience_def clearHistoryApp_def)
next
  case PromptTimerFires
  with inv show ?thesis by (simp add: step_def resetPromptTimer_def)
qed


lemma settle_room_flag:
  "isGeneratingRoom (fst (handleGeneration_settle outcome a)) = isGeneratingRoom a"
  by (simp add: handleGeneration_settle_def simulateProgress_finally_def
      split: sum.splits prod.splits)

lemma dispatch_room_flag:
  "isGeneratingRoom (fst (handleGeneration_dispatch cl a)) = isGeneratingRoom a"
  by (simp add: handleGeneration_dispatch_def simulateProgress_start_def split: option.splits)

lemma dispatch_loading:
  "isLoading (fst (handleGeneration_dispatch cl a))
     = (isLoading a \<or> snd (handleGeneration_dispatch cl a))"
  by (simp add: handleGeneration_dispatch_def simulateProgress_start_def split: option.splits)

lemma item_dispatch_flags:
  "isLoading (fst (handleGenerateProduct_dispatch pid genPrompt index a)) = isLoading a"
  "isGeneratingRoom (fst (handleGenerateProduct_dispatch pid genPrompt index a))
     = isGeneratingRoom a"
  by (simp_all add: handleGenerateProduct_dispatch_def setProductGenerating_def)

lemma item_settle_flags:
  "isLoading (handleGenerateProduct_settle pid index outcome a) = isLoading a"
  "isGeneratingRoom (handleGenerateProduct_settle pid index outcome a) = isGeneratingRoom a"
  by (simp_all add: handleGenerateProduct_settle_def setProductGenerating_def
      handleUpdateProductImage_def split: sum.splits)

lemma restore_flags:
  "isLoading (strip (applyRestore r a)) = isLoading a"
  "isGeneratingRoom (strip (applyRestore r a)) = isGeneratingRoom a"
  by (simp_all add: applyRestore_def strip_def onStateRestore_def
      split: prod.splits option.splits)

lemma step_loading:
  assumes inv: "isLoading (app w) \<longrightarrow> compositeRequests w \<noteq> []"
  shows "isLoading (app (step room w e)) \<longrightarrow> compositeRequests (step room w e) \<noteq> []"
proof (cases e)
  case (AddProduct now)
  with inv show ?thesis by (simp add: step_def handleAddProduct_def)
next
  case (RemoveProduct pid)
  with inv show ?thesis by (simp add: step_def handleRemoveProduct_def)
next
  case (UploadProduct pid img)
  with inv show ?thesis by (simp add: step_def handleUpdateProductImage_def)
next
  case (UploadRoom img)
  with inv show ?thesis by (simp add: step_def)
next
  case (GenerateProduct pid genPrompt index)
  obtain a sent where d: "handleGenerateProduct_dispatch pid genPrompt index (app w) = (a, sent)"
    by (cases "handleGenerateProduct_dispatch pid genPrompt index (app w)")
  with item_dispatch_flags(1) [of pid genPrompt index "app w"]
  have "isLoading a = isLoading (app w)" by simp
  with inv GenerateProduct d show ?thesis by (simp add: step_def)
next
  case (ProductSettles k r)
  with inv show ?thesis
    by (simp add: step_def item_settle_flags split: option.splits)
next
  case (GenerateRoom genPrompt)
  with inv show ?thesis by (simp add: step_def handleGenerateRoom_dispatch_def)
next
  case (RoomSettles r)
  with inv show ?thesis
    by (simp add: step_def handleGenerateRoom_settle_def split: sum.splits)
next
  case (TypePrompt s)
  with inv show ?thesis by (simp add: step_def handlePromptChange_def Let_def)
next
  case Submit
  obtain a sent where d: "handleGeneration_dispatch (handler w) (app w) = (a, sent)"
    by (cases "handleGeneration_dispatch (handler w) (app w)")
  with dispatch_loading [of "handler w" "app w"]
  have "isLoading a = (isLoading (app w) \<or> sent)" by simp
  with inv Submit d show ?thesis by (simp add: step_def)
next
  case (CompositeSettles k r1 r2)
  show ?thesis
  proof (cases "js_index (compositeRequests w) (int k)")
    case None
    with inv CompositeSettles show ?thesis by (simp add: step_def)
  next
    case (Some cl)
    obtain a saved where d: "handleGeneration_settle
        (snd (generateVisual (visualParams (captured cl)) r1 r2)) (app w) = (a, saved)"
      by (cases "handleGeneration_settle
        (snd (generateVisual (visualParams (captured cl)) r1 r2)) (app w)")
    with settle_clears_loading
      [of "snd (generateVisual (visualParams (captured cl)) r1 r2)" "app w"]
    have "\<not> isLoading a" by simp
    with CompositeSettles Some d show ?thesis by (simp add: step_def)
  qed
next
  case (SaveTimerFires k t1 t2)
  with inv show ?thesis by (simp add: step_def saveTimer_def split: option.splits)
next
  case HideTimerFires
  with inv show ?thesis by (simp add: step_def hideProgress_def)
next
  case Undo
  with inv show ?thesis by (simp add: step_def undoApp_def restore_flags)
next
  case Redo
  with inv show ?thesis by (simp add: step_def redoApp_def restore_flags)
next
  case ClearHistory
  with inv show ?thesis by (simp add: step_def clearHistoryApp_def)
next
  case (StartOver now)
  with inv show ?thesis by (simp add: step_def resetExperience_def clearHistoryApp_def)
next
  case PromptTimerFires
  with inv show ?thesis by (simp add: step_def resetPromptTimer_def)
qed

lemma step_room:
  assumes inv: "isGeneratingRoom (app w) \<longrightarrow> roomRequests w > 0"
  shows "isGeneratingRoom (app (step room w e)) \<longrightarrow> roomRequests (step room w e) > 0"
proof (cases e)
  case (AddProduct now)
  with inv show ?thesis by (simp add: step_def handleAddProduct_def)
next
  case (RemoveProduct pid)
  with inv show ?thesis by (simp add: step_def handleRemoveProduct_def)
next
  case (UploadProduct pid img)
  with inv show ?thesis by (simp add: step_def handleUpdateProductImage_def)
next
  case (UploadRoom img)
  with inv show ?thesis by (simp add: step_def)
next
  case (GenerateProduct pid genPrompt index)
  obtain a sent where d: "handleGenerateProduct_dispatch pid genPrompt index (app w) = (a, sent)"
    by (cases "handleGenerateProduct_dispatch pid genPrompt index (app w)")
  with item_dispatch_flags(2) [of pid genPrompt index "app w"]
  have "isGeneratingRoom a = isGeneratingRoom (app w)" by simp
  with inv GenerateProduct d show ?thesis by (simp add: step_def)
next
  case (ProductSettles k r)
  with inv show ?thesis
    by (simp add: step_def item_settle_flags split: option.splits)
next
  case (GenerateRoom genPrompt)
  with inv show ?thesis by (simp add: step_def handleGenerateRoom_dispatch_def)
next
  case (RoomSettles r)
  with inv show ?thesis by (auto simp: step_def settle_clears_room)
next
  case (TypePrompt s)
  with inv show ?thesis by (simp add: step_def handlePromptChange_def Let_def)
next
  case Submit
  obtain a sent where d: "handleGeneration_dispatch (handler w) (app w) = (a, sent)"
    by (cases "handleGeneration_dispatch (handler w) (app w)")
  with dispatch_room_flag [of "handler w" "app w"]
  have "isGeneratingRoom a = isGeneratingRoom (app w)" by simp
  with inv Submit d show ?thesis by (simp add: step_def)
next
  case (CompositeSettles k r1 r2)
  show ?thesis
  proof (cases "js_index (compositeRequests w) (int k)")
    case None
    with inv CompositeSettles show ?thesis by (simp add: step_def)
  next
    case (Some cl)
    obtain a saved where d: "handleGeneration_settle
        (snd (generateVisual (visualParams (captured cl)) r1 r2)) (app w) = (a, saved)"
      by (cases "handleGeneration_settle
        (snd (generateVisual (visualParams (captured cl)) r1 r2)) (app w)")
    with settle_room_flag
      [of "snd (generateVisual (visualParams (captured cl)) r1 r2)" "app w"]
    have "isGeneratingRoom a = isGeneratingRoom (app w)" by simp
    with inv CompositeSettles Some d show ?thesis by (simp add: step_def)
  qed
next
  case (SaveTimerFires k t1 t2)
  with inv show ?thesis by (simp add: step_def saveTimer_def split: option.splits)
next
  case HideTimerFires
  with inv show ?thesis by (simp add: step_def hideProgress_def)
next
  case Undo
  with inv show ?thesis by (simp add: step_def undoApp_def restore_flags)
next
  case Redo
  with inv show ?thesis by (simp add: step_def redoApp_def restore_flags)
next
  case ClearHistory
  with inv show ?thesis by (simp add: step_def clearHistoryApp_def)
next
  case (StartOver now)
  with inv show ?thesis by (simp add: step_def resetExperience_def clearHistoryApp_def)
next
  case PromptTimerFires
  with inv show ?thesis by (simp add: step_def resetPromptTimer_def)
qed

lemma run_snoc: "run room now (es @ [e]) = step room (run room now es) e"
  by (simp add: run_def)

lemma run_loading:
  "isLoading (app (run room now es)) \<longrightarrow> compositeRequests (run room now es) \<noteq> []"
proof (induction es rule: rev_induct)
  case Nil
  show ?case by (simp add: run_def initialWorld_def initialApp_def)
next
  case (snoc e es)
  then show ?case unfolding run_snoc by (rule step_loading)
qed

lemma run_room:
  "isGeneratingRoom (app (run room now es)) \<longrightarrow> roomRequests (run room now es) > 0"
proof (induction es rule: rev_induct)
  case Nil
  show ?case by (simp add: run_def initialWorld_def initialApp_def)
next
  case (snoc e es)
  then show ?case unfolding run_snoc by (rule step_room)
qed

lemma run_item_flags:
  "Undo \<notin> set es \<Longrightarrow> Redo \<notin> set es \<Longrightarrow>
     generatingIds (products (app (run room now es)))
       \<subseteq> fst ` set (productRequests (run room now es))"
proof (induction es rule: rev_induct)
  case Nil
  show ?case by (simp add: run_def initialWorld_def initialApp_def)
next
  case (snoc e es)
  from snoc.prems have es: "Undo \<notin> set es" "Redo \<notin> set es"
    and e: "e \<noteq> Undo" "e \<noteq> Redo" by auto
  from es have "generatingIds (products (app (run room now es)))
       \<subseteq> fst ` set (productRequests (run room now es))" by (rule snoc.IH)
  then show ?case unfolding run_snoc using e by (rule step_item_flags)
qed

lemma generatingIds_request:
  assumes "generatingIds ps \<subseteq> fst ` set reqs" and "p \<in> set ps" and "isGenerating p"
  shows "\<exists>q \<in> set reqs. fst q = product_id p"
proof -
  from assms(2,3) have "product_id p \<in> generatingIds ps"
    unfolding generatingIds_def by blast
  with assms(1) have "product_id p \<in> fst ` set reqs" by (rule subsetD)
  then obtain q where "q \<in> set reqs" and "product_id p = fst q" by (rule imageE)
  then show ?thesis by (intro bexI [of _ q]) (rule sym)
qed

text \<open>
  Claim C8, amended. The second turn of each generation handler (item, scene, composite)
  leaves its own busy flag false for every outcome of the service, whatever the state it
  runs on: the composite's \<open>isLoading\<close>, the scene's \<open>isGeneratingRoom\<close>, and the
  \<open>isGenerating\<close> of every item with the request's id. Hence a whole operation started
  with its flag clear ends with it clear, also when the guards reject it (they set no
  flag). In every state that a run of the application reaches, \<open>isLoading\<close> is set only
  while a composite request is outstanding and \<open>isGeneratingRoom\<close> only while a scene
  request is outstanding; and in every state reached by a run with no undo and no redo,
  an item is marked as generating only while a request with its id is outstanding. The
  settling of that request clears the flag, by the first part.
\<close>

theorem C8_busy_flags_released_and_backed_by_requests:
  "isLoading (fst (handleGeneration_settle outcome live)) = False
   \<and> isGeneratingRoom (handleGenerateRoom_settle source live) = False
   \<and> (\<forall>p \<in> set (products (handleGenerateProduct_settle pid index source live)).
         product_id p = pid \<longrightarrow> \<not> isGenerating p)
   \<and> (\<not> isLoading a \<longrightarrow> \<not> isLoading (fst (handleGeneration cl r1 r2 t1 t2 a)))
   \<and> (\<not> isGeneratingRoom a \<longrightarrow> \<not> isGeneratingRoom (handleGenerateRoom roomPrompt r' a))
   \<and> ((\<forall>p \<in> set (products a). product_id p = pid \<longrightarrow> \<not> isGenerating p) \<longrightarrow>
        (\<forall>p \<in> set (products (handleGenerateProduct pid genPrompt index r a)).
           product_id p = pid \<longrightarrow> \<not> isGenerating p))
   \<and> (isLoading (app (run room now es)) \<longrightarrow> compositeRequests (run room now es) \<noteq> [])
   \<and> (isGeneratingRoom (app (run room now es)) \<longrightarrow> 0 < roomRequests (run room now es))
   \<and> (Undo \<notin> set es \<and> Redo \<notin> set es \<longrightarrow>
        (\<forall>p \<in> set (products (app (run room now es))).
           isGenerating p \<longrightarrow>
             (\<exists>q \<in> set (productRequests (run room now es)). fst q = product_id p)))"
proof (intro conjI impI ballI)
  show "isLoading (fst (handleGeneration_settle outcome live)) = False"
    by (rule settle_clears_loading)
  show "isGeneratingRoom (handleGenerateRoom_settle source live) = False"
    by (rule settle_clears_room)
next
  fix p
  assume "p \<in> set (products (handleGenerateProduct_settle pid index source live))"
    and "product_id p = pid"
  then show "\<not> isGenerating p" by (rule settle_clears_item)
next
  assume "\<not> isLoading a"
  then show "\<not> isLoading (fst (handleGeneration cl r1 r2 t1 t2 a))"
    by (simp add: handleGeneration_loading)
next
  assume "\<not> isGeneratingRoom a"
  then show "\<not> isGeneratingRoom (handleGenerateRoom roomPrompt r' a)"
    by (simp add: handleGenerateRoom_def handleGenerateRoom_dispatch_def settle_clears_room)
next
  fix p
  assume idle: "\<forall>p \<in> set (products a). product_id p = pid \<longrightarrow> \<not> isGenerating p"
    and p: "p \<in> set (products (handleGenerateProduct pid genPrompt index r a))"
    and i: "product_id p = pid"
  show "\<not> isGenerating p"
  proof (cases "genPrompt = []")
    case True
    then have "products (handleGenerateProduct pid genPrompt index r a) = products a"
      by (simp add: handleGenerateProduct_def handleGenerateProduct_dispatch_def)
    with p have "p \<in> set (products a)" by (simp only:)
    with idle i show ?thesis by blast
  next
    case False
    then have "handleGenerateProduct pid genPrompt index r a
        = handleGenerateProduct_settle pid index (generateSourceImage r)
            ((setProductGenerating pid True a)\<lparr>error := None\<rparr>)"
      by (simp add: handleGenerateProduct_def handleGenerateProduct_dispatch_def)
    with p have "p \<in> set (products (handleGenerateProduct_settle pid index
            (generateSourceImage r) ((setProductGenerating pid True a)\<lparr>error := None\<rparr>)))"
      by (simp only:)
    then show ?thesis using i by (rule settle_clears_item)
  qed
next
  assume "isLoading (app (run room now es))"
  with run_loading [of room now es] show "compositeRequests (run room now es) \<noteq> []"
    by (rule mp)
next
  assume "isGeneratingRoom (app (run room now es))"
  with run_room [of room now es] show "0 < roomRequests (run room now es)"
    by (rule mp)
next
  fix p
  assume es: "Undo \<notin> set es \<and> Redo \<notin> set es"
    and p: "p \<in> set (products (app (run room now es)))"
    and g: "isGenerating p"
  from es have "Undo \<notin> set es" and "Redo \<notin> set es" by blast+
  then have "generatingIds (products (app (run room now es)))
       \<subseteq> fst ` set (productRequests (run room now es))"
    by (rule run_item_flags)
  then show "\<exists>q \<in> set (productRequests (run room now es)). fst q = product_id p"
    using p g by (rule generatingIds_request)
qed

theorem C8_busy_flags_released_and_backed_by_requests_witness:
  "\<not> isLoading sample_first
   \<and> isLoading (fst (handleGeneration_dispatch (closure_of sample_first) sample_first)) = True
   \<and> isLoading (fst (handleGeneration (closure_of sample_first)
         (Inl (ErrorObj ''503'')) (Inl (ErrorObj ''503'')) 10 10 sample_first)) = False
   \<and> error (fst (handleGeneration (closure_of sample_first)
         (Inl (ErrorObj ''503'')) (Inl (ErrorObj ''503'')) 10 10 sample_first))
       = Some ''Error: Gemini API Error: 503''
   \<and> isGeneratingRoom (fst (handleGenerateRoom_dispatch ''a loft'' sample_first)) = True
   \<and> isGeneratingRoom (handleGenerateRoom ''a loft'' (Inr (text_response ''no''))
         sample_first) = False
   \<and> map isGenerating (products (fst (handleGenerateProduct_dispatch ''prod-1'' ''a sofa'' 0
         sample_first))) = [True]
   \<and> map isGenerating (products (handleGenerateProduct ''prod-1'' ''a sofa'' 0 (Inl NonError)
         sample_first)) = [False]
   \<and> Undo \<notin> set all_busy_trace
   \<and> Redo \<notin> set all_busy_trace
   \<and> isLoading (app (run None 1 all_busy_trace))
   \<and> compositeRequests (run None 1 all_busy_trace) \<noteq> []
   \<and> isGeneratingRoom (app (run None 1 all_busy_trace))
   \<and> 0 < roomRequests (run None 1 all_busy_trace)
   \<and> map product_id (products (app (run None 1 all_busy_trace))) = [''prod-1'', ''prod-2'']
   \<and> map isGenerating (products (app (run None 1 all_busy_trace))) = [False, True]
   \<and> (\<exists>q \<in> set (productRequests (run None 1 all_busy_trace)). fst q = ''prod-2'')
   \<and> idle (run None 1 all_settled_trace)
   \<and> isLoading (app (run None 1 all_settled_trace)) = False
   \<and> isGeneratingRoom (app (run None 1 all_settled_trace)) = False
   \<and> map isGenerating (products (app (run None 1 all_settled_trace))) = [False, False]"
proof -
  note w = C8_busy_flags_released_and_backed_by_requests
    [where outcome = "Inl (ErrorObj ''503'')" and live = sample_first
       and source = "Inl NonError" and pid = "''prod-1''" and index = 0 and a = sample_first
       and cl = "closure_of sample_first" and ?r1.0 = "Inl (ErrorObj ''503'')"
       and ?r2.0 = "Inl (ErrorObj ''503'')" and ?t1.0 = 10 and ?t2.0 = 10
       and roomPrompt = "''a loft''" and r' = "Inr (text_response ''no'')"
       and genPrompt = "''a sofa''" and r = "Inl NonError"
       and room = None and now = 1 and es = all_busy_trace]
  have idle: "\<not> isLoading sample_first" "\<not> isGeneratingRoom sample_first"
    by code_simp+
  from w idle have l: "isLoading (fst (handleGeneration (closure_of sample_first)
         (Inl (ErrorObj ''503'')) (Inl (ErrorObj ''503'')) 10 10 sample_first)) = False"
    and r: "isGeneratingRoom (handleGenerateRoom ''a loft'' (Inr (text_response ''no''))
         sample_first) = False"
    by blast+
  have e: "isLoading (fst (handleGeneration_dispatch (closure_of sample_first) sample_first))
        = True"
    "error (fst (handleGeneration (closure_of sample_first)
         (Inl (ErrorObj ''503'')) (Inl (ErrorObj ''503'')) 10 10 sample_first))
       = Some ''Error: Gemini API Error: 503''"
    "isGeneratingRoom (fst (handleGenerateRoom_dispatch ''a loft'' sample_first)) = True"
    "map isGenerating (products (fst (handleGenerateProduct_dispatch ''prod-1'' ''a sofa'' 0
         sample_first))) = [True]"
    "map isGenerating (products (handleGenerateProduct ''prod-1'' ''a sofa'' 0 (Inl NonError)
         sample_first)) = [False]"
    by code_simp+
  have n: "Undo \<notin> set all_busy_trace" "Redo \<notin> set all_busy_trace"
    by code_simp+
  have f: "isLoading (app (run None 1 all_busy_trace))"
    "isGeneratingRoom (app (run None 1 all_busy_trace))"
    "map product_id (products (app (run None 1 all_busy_trace))) = [''prod-1'', ''prod-2'']"
    "map isGenerating (products (app (run None 1 all_busy_trace))) = [False, True]"
    by code_simp+
  from w f(1) have c: "compositeRequests (run None 1 all_busy_trace) \<noteq> []" by blast
  from w f(2) have s: "0 < roomRequests (run None 1 all_busy_trace)" by blast
  have ps: "products (app (run None 1 all_busy_trace))
      = [\<lparr>product_id = ''prod-1'', image = Some ''data:image/png;base64,SOFA'',
           isGenerating = False\<rparr>,
         \<lparr>product_id = ''prod-2'', image = None, isGenerating = True\<rparr>]"
    by code_simp
  from w n have b: "\<forall>p \<in> set (products (app (run None 1 all_busy_trace))).
      isGenerating p \<longrightarrow>
        (\<exists>q \<in> set (productRequests (run None 1 all_busy_trace)). fst q = product_id p)"
    by blast
  have "\<lparr>product_id = ''prod-2'', image = None, isGenerating = True\<rparr>
      \<in> set (products (app (run None 1 all_busy_trace)))"
    unfolding ps by simp
  with b have "isGenerating \<lparr>product_id = ''prod-2'', image = None, isGenerating = True\<rparr> \<longrightarrow>
      (\<exists>q \<in> set (productRequests (run None 1 all_busy_trace)).
         fst q = product_id \<lparr>product_id = ''prod-2'', image = None, isGenerating = True\<rparr>)"
    by (rule bspec)
  then have q: "\<exists>q \<in> set (productRequests (run None 1 all_busy_trace)). fst q = ''prod-2''"
    by simp
  have d: "idle (run None 1 all_settled_trace)"
    "isLoading (app (run None 1 all_settled_trace)) = False"
    "isGeneratingRoom (app (run None 1 all_settled_trace)) = False"
    "map isGenerating (products (app (run None 1 all_settled_trace))) = [False, False]"
    by code_simp+
  from idle(1) l r e n f c s q d show ?thesis by blast
qed

text \<open>
  Claim C8, as stated, fails in its last part: the run \<^const>\<open>busy_trace\<close> ends in a state
  with no request outstanding in which the second item is still marked as generating.
  The flag was copied into a snapshot while the item's request was outstanding, and undo
  put it back after the request had settled. Every submit of the run follows a change
  of the prompt, so the handler that runs is the one of the latest render.
\<close>

theorem C8_stale_busy_flag_counterexample:
  "idle (run None 1 busy_trace)
   \<and> saveTimers (run None 1 busy_trace) = []
   \<and> map product_id (products (app (run None 1 busy_trace))) = [''prod-1'', ''prod-2'']
   \<and> map isGenerating (products (app (run None 1 busy_trace))) = [False, True]"
  by code_simp

end
